theory Spec2Isabelle
  imports Complex_Main "HOL-Library.Multiset"
begin

section \<open>Floating-point values\<close>

text \<open>
  The tensors of the program hold 32-bit floats. \<open>Fin r\<close> is the finite value \<open>r\<close>,
  \<open>PInf\<close> and \<open>NInf\<close> are the two infinities and \<open>NaN\<close> is not-a-number. The sign of
  zero is not modelled (a zero divisor is taken as \<open>+0\<close>).
\<close>

datatype tf_float = Fin real | PInf | NInf | NaN

fun is_finite :: "tf_float \<Rightarrow> bool" where
  "is_finite (Fin r) = True"
| "is_finite PInf = False"
| "is_finite NInf = False"
| "is_finite NaN = False"

fun fneg :: "tf_float \<Rightarrow> tf_float" where
  "fneg (Fin a) = Fin (- a)"
| "fneg PInf = NInf"
| "fneg NInf = PInf"
| "fneg NaN = NaN"

text \<open>
  Rounding a real to binary32, to nearest with ties to even: 24 significant bits,
  exponents from -126 (below which the spacing stays \<open>2 ^ -149\<close>) to 127, and an
  infinity where the rounded value reaches \<open>2 ^ 128\<close>.
\<close>

definition round_even :: "real \<Rightarrow> int" where
  "round_even x =
     (let f = \<lfloor>x\<rfloor>; r = x - of_int f
      in if r < 1 / 2 then f else if 1 / 2 < r then f + 1 else if even f then f else f + 1)"

definition exponent32 :: "real \<Rightarrow> int" where
  "exponent32 x = max \<lfloor>log 2 \<bar>x\<bar>\<rfloor> (- 126)"

definition ulp32 :: "real \<Rightarrow> real" where
  "ulp32 x = 2 powr of_int (exponent32 x - 23)"

definition round32 :: "real \<Rightarrow> real" where
  "round32 x = of_int (round_even (x / ulp32 x)) * ulp32 x"

definition float32 :: "real \<Rightarrow> tf_float" where
  "float32 x =
     (if 2 ^ 128 \<le> round32 x then PInf
      else if round32 x \<le> - (2 ^ 128) then NInf
      else Fin (round32 x))"

text \<open>
  The arithmetic the tensors are computed with: how a real result is rounded (also
  by a cast), and the kernels of \<open>tf.log\<close> and \<open>tf.exp\<close> on finite arguments (the
  logarithm on positive ones). The program runs on \<open>float32_arith\<close> with the kernels
  of its platform, which IEEE 754 does not fix; the theorems about the program hold for
  every pair of kernels. \<open>exact_arith\<close> is the arithmetic of the reals, for the
  statements of the spec that are made over the reals. \<open>float32_rounded\<close> has correctly
  rounded kernels and serves to evaluate concrete inputs.
\<close>

record arith =
  rnd :: "real \<Rightarrow> tf_float"
  tf_log :: "real \<Rightarrow> tf_float"
  tf_exp :: "real \<Rightarrow> tf_float"

definition float32_arith :: "(real \<Rightarrow> tf_float) \<Rightarrow> (real \<Rightarrow> tf_float) \<Rightarrow> arith" where
  "float32_arith log_kernel exp_kernel =
     \<lparr>rnd = float32, tf_log = log_kernel, tf_exp = exp_kernel\<rparr>"

definition exact_arith :: arith where
  "exact_arith = \<lparr>rnd = Fin, tf_log = (\<lambda>x. Fin (ln x)), tf_exp = (\<lambda>x. Fin (exp x))\<rparr>"

definition float32_rounded :: arith where
  "float32_rounded = float32_arith (\<lambda>x. float32 (ln x)) (\<lambda>x. float32 (exp x))"

text \<open>The operations of IEEE 754 on the special values, rounded on the finite ones.\<close>

fun fadd :: "arith \<Rightarrow> tf_float \<Rightarrow> tf_float \<Rightarrow> tf_float" where
  "fadd A (Fin a) (Fin b) = rnd A (a + b)"
| "fadd A (Fin a) PInf = PInf"
| "fadd A (Fin a) NInf = NInf"
| "fadd A (Fin a) NaN = NaN"
| "fadd A PInf (Fin b) = PInf"
| "fadd A PInf PInf = PInf"
| "fadd A PInf NInf = NaN"
| "fadd A PInf NaN = NaN"
| "fadd A NInf (Fin b) = NInf"
| "fadd A NInf PInf = NaN"
| "fadd A NInf NInf = NInf"
| "fadd A NInf NaN = NaN"
| "fadd A NaN b = NaN"

definition fsub :: "arith \<Rightarrow> tf_float \<Rightarrow> tf_float \<Rightarrow> tf_float" where
  "fsub A a b = fadd A a (fneg b)"

text \<open>The sign of an infinity times or over a finite value; zero times infinity is NaN.\<close>

definition signed_inf :: "real \<Rightarrow> tf_float" where
  "signed_inf s = (if 0 < s then PInf else if s < 0 then NInf else NaN)"

fun fmul :: "arith \<Rightarrow> tf_float \<Rightarrow> tf_float \<Rightarrow> tf_float" where
  "fmul A (Fin a) (Fin b) = rnd A (a * b)"
| "fmul A (Fin a) PInf = signed_inf a"
| "fmul A (Fin a) NInf = signed_inf (- a)"
| "fmul A (Fin a) NaN = NaN"
| "fmul A PInf (Fin b) = signed_inf b"
| "fmul A PInf PInf = PInf"
| "fmul A PInf NInf = NInf"
| "fmul A PInf NaN = NaN"
| "fmul A NInf (Fin b) = signed_inf (- b)"
| "fmul A NInf PInf = NInf"
| "fmul A NInf NInf = PInf"
| "fmul A NInf NaN = NaN"
| "fmul A NaN b = NaN"

fun fdiv :: "arith \<Rightarrow> tf_float \<Rightarrow> tf_float \<Rightarrow> tf_float" where
  "fdiv A (Fin a) (Fin b) = (if b = 0 then signed_inf a else rnd A (a / b))"
| "fdiv A (Fin a) PInf = Fin 0"
| "fdiv A (Fin a) NInf = Fin 0"
| "fdiv A (Fin a) NaN = NaN"
| "fdiv A PInf (Fin b) = (if 0 \<le> b then PInf else NInf)"
| "fdiv A PInf PInf = NaN"
| "fdiv A PInf NInf = NaN"
| "fdiv A PInf NaN = NaN"
| "fdiv A NInf (Fin b) = (if 0 \<le> b then NInf else PInf)"
| "fdiv A NInf PInf = NaN"
| "fdiv A NInf NInf = NaN"
| "fdiv A NInf NaN = NaN"
| "fdiv A NaN b = NaN"

text \<open>\<open>tf.log\<close>: minus infinity at zero, NaN below it. \<open>tf.exp\<close>: zero at minus infinity.\<close>

fun flog :: "arith \<Rightarrow> tf_float \<Rightarrow> tf_float" where
  "flog A (Fin a) = (if 0 < a then tf_log A a else if a = 0 then NInf else NaN)"
| "flog A PInf = PInf"
| "flog A NInf = NaN"
| "flog A NaN = NaN"

fun fexp :: "arith \<Rightarrow> tf_float \<Rightarrow> tf_float" where
  "fexp A (Fin a) = tf_exp A a"
| "fexp A PInf = PInf"
| "fexp A NInf = Fin 0"
| "fexp A NaN = NaN"

text \<open>Comparisons; every comparison with NaN is false.\<close>

fun flt :: "tf_float \<Rightarrow> tf_float \<Rightarrow> bool" where
  "flt (Fin a) (Fin b) = (a < b)"
| "flt (Fin a) PInf = True"
| "flt (Fin a) NInf = False"
| "flt PInf b = False"
| "flt NInf (Fin b) = True"
| "flt NInf PInf = True"
| "flt NInf NInf = False"
| "flt NaN b = False"
| "flt a NaN = False"

fun fge :: "tf_float \<Rightarrow> tf_float \<Rightarrow> bool" where
  "fge (Fin a) (Fin b) = (b \<le> a)"
| "fge (Fin a) PInf = False"
| "fge (Fin a) NInf = True"
| "fge PInf (Fin b) = True"
| "fge PInf PInf = True"
| "fge PInf NInf = True"
| "fge NInf (Fin b) = False"
| "fge NInf PInf = False"
| "fge NInf NInf = True"
| "fge NaN b = False"
| "fge a NaN = False"

section \<open>Boxes and the transform module (detection/core/bbox/transforms.py)\<close>

text \<open>
  A box is a row \<open>(y1, x1, y2, x2)\<close>; the four columns are fixed by the type. The boxes
  handed to the program have finite coordinates; what the program computes from them
  may not be finite.
\<close>

type_synonym box = "real \<times> real \<times> real \<times> real"
type_synonym vec4 = "real \<times> real \<times> real \<times> real"
type_synonym frow = "tf_float \<times> tf_float \<times> tf_float \<times> tf_float"

definition columns :: "'a \<times> 'a \<times> 'a \<times> 'a \<Rightarrow> 'a list" where
  "columns r = (case r of (a, b, c, d) \<Rightarrow> [a, b, c, d])"

definition fin_row :: "box \<Rightarrow> frow" where
  "fin_row b = (case b of (y1, x1, y2, x2) \<Rightarrow> (Fin y1, Fin x1, Fin y2, Fin x2))"

definition row_finite :: "frow \<Rightarrow> bool" where
  "row_finite r = (case r of (a, b, c, d) \<Rightarrow>
     is_finite a \<and> is_finite b \<and> is_finite c \<and> is_finite d)"

text \<open>
  \<open>bbox2delta\<close>, lines 3-34, on one pair of rows (the source broadcasts over rows).
  Lines 13 and 14 cast the two boxes; the means, the stds and the literal 0.5 become
  float32 tensors when they meet one.
\<close>

fun bbox2delta :: "arith \<Rightarrow> box \<Rightarrow> box \<Rightarrow> vec4 \<Rightarrow> vec4 \<Rightarrow> frow" where
  "bbox2delta A (y1, x1, y2, x2) (gy1, gx1, gy2, gx2) (m0, m1, m2, m3) (s0, s1, s2, s3) =
    (let height = fsub A (rnd A y2) (rnd A y1);
         width = fsub A (rnd A x2) (rnd A x1);
         center_y = fadd A (rnd A y1) (fmul A (rnd A 0.5) height);
         center_x = fadd A (rnd A x1) (fmul A (rnd A 0.5) width);
         gt_height = fsub A (rnd A gy2) (rnd A gy1);
         gt_width = fsub A (rnd A gx2) (rnd A gx1);
         gt_center_y = fadd A (rnd A gy1) (fmul A (rnd A 0.5) gt_height);
         gt_center_x = fadd A (rnd A gx1) (fmul A (rnd A 0.5) gt_width);
         dy = fdiv A (fsub A gt_center_y center_y) height;
         dx = fdiv A (fsub A gt_center_x center_x) width;
         dh = flog A (fdiv A gt_height height);
         dw = flog A (fdiv A gt_width width)
     in (fdiv A (fsub A dy (rnd A m0)) (rnd A s0),
         fdiv A (fsub A dx (rnd A m1)) (rnd A s1),
         fdiv A (fsub A dh (rnd A m2)) (rnd A s2),
         fdiv A (fsub A dw (rnd A m3)) (rnd A s3)))"

text \<open>
  \<open>delta2bbox\<close>, lines 36-66, on one box and its delta row. The box is not cast here:
  it is a float32 tensor already, its coordinates are the values it holds.
\<close>

fun delta2bbox :: "arith \<Rightarrow> box \<Rightarrow> frow \<Rightarrow> vec4 \<Rightarrow> vec4 \<Rightarrow> frow" where
  "delta2bbox A (y1, x1, y2, x2) (d0, d1, d2, d3) (m0, m1, m2, m3) (s0, s1, s2, s3) =
    (let e0 = fadd A (fmul A d0 (rnd A s0)) (rnd A m0);
         e1 = fadd A (fmul A d1 (rnd A s1)) (rnd A m1);
         e2 = fadd A (fmul A d2 (rnd A s2)) (rnd A m2);
         e3 = fadd A (fmul A d3 (rnd A s3)) (rnd A m3);
         height = fsub A (Fin y2) (Fin y1);
         width = fsub A (Fin x2) (Fin x1);
         center_y = fadd A (Fin y1) (fmul A (rnd A 0.5) height);
         center_x = fadd A (Fin x1) (fmul A (rnd A 0.5) width);
         center_y' = fadd A center_y (fmul A e0 height);
         center_x' = fadd A center_x (fmul A e1 width);
         height' = fmul A height (fexp A e2);
         width' = fmul A width (fexp A e3);
         ny1 = fsub A center_y' (fmul A (rnd A 0.5) height');
         nx1 = fsub A center_x' (fmul A (rnd A 0.5) width');
         ny2 = fadd A ny1 height';
         nx2 = fadd A nx1 width'
     in (ny1, nx1, ny2, nx2))"

text \<open>
  \<open>bbox_clip\<close>, lines 68-85: every row of the batch against one window. Minimum and
  maximum return one of their arguments, so nothing is rounded.
\<close>

fun clip_row :: "box \<Rightarrow> box \<Rightarrow> box" where
  "clip_row (wy1, wx1, wy2, wx2) (y1, x1, y2, x2) =
     (max (min y1 wy2) wy1, max (min x1 wx2) wx1,
      max (min y2 wy2) wy1, max (min x2 wx2) wx1)"

definition bbox_clip :: "box list \<Rightarrow> box \<Rightarrow> box list" where
  "bbox_clip boxes window = map (clip_row window) boxes"

section \<open>Tensor operations used by the target builder\<close>

text \<open>
  The TensorFlow kernels raise \<open>InvalidArgumentError\<close> where the shapes do not fit; the
  model returns the error as a value. A matrix is the list of its rows, and the number
  of its columns is passed along, since a matrix without rows still has columns.
\<close>

datatype error = InvalidArgumentError

definition err_bind :: "error + 'a \<Rightarrow> ('a \<Rightarrow> error + 'b) \<Rightarrow> error + 'b" where
  "err_bind m f = (case m of Inl e \<Rightarrow> Inl e | Inr v \<Rightarrow> f v)"

text \<open>The index of the first maximum of a non-empty vector.\<close>

fun argmax_vec :: "real list \<Rightarrow> nat" where
  "argmax_vec [] = 0"
| "argmax_vec [x] = 0"
| "argmax_vec (x # y # ys) =
     (let j = argmax_vec (y # ys) in if x < (y # ys) ! j then Suc j else 0)"

text \<open>
  \<open>tf.argmax(m, axis=1)\<close> and \<open>tf.argmax(m, axis=0)\<close>: the kernel refuses an empty
  reduction axis ("Reduction axis ... is empty in shape ...").
\<close>

definition tf_argmax_axis1 :: "nat \<Rightarrow> real list list \<Rightarrow> error + nat list" where
  "tf_argmax_axis1 ncols m =
     (if ncols = 0 then Inl InvalidArgumentError else Inr (map argmax_vec m))"

definition tf_argmax_axis0 :: "nat \<Rightarrow> real list list \<Rightarrow> error + nat list" where
  "tf_argmax_axis0 ncols m =
     (if m = [] then Inl InvalidArgumentError
      else Inr (map (\<lambda>j. argmax_vec (map (\<lambda>row. row ! j) m)) [0..<ncols]))"

text \<open>\<open>tf.reduce_max\<close> along a row; the maximum of no value is minus infinity.\<close>

fun reduce_max :: "real list \<Rightarrow> tf_float" where
  "reduce_max [] = NInf"
| "reduce_max (x # xs) = Fin (fold max xs x)"

text \<open>\<open>tf.where(cond, x, y)\<close> with three vectors, which must have one shape.\<close>

definition tf_where :: "bool list \<Rightarrow> 'a list \<Rightarrow> 'a list \<Rightarrow> error + 'a list" where
  "tf_where c x y =
     (if length c = length x \<and> length x = length y
      then Inr (map (\<lambda>(b, u, v). if b then u else v) (zip c (zip x y)))
      else Inl InvalidArgumentError)"

text \<open>\<open>tf.squeeze(tf.where(tf.equal(t, v)), 1)\<close>: the indices holding \<open>v\<close>, ascending.\<close>

definition where_equal :: "int \<Rightarrow> int list \<Rightarrow> nat list" where
  "where_equal v t = filter (\<lambda>i. t ! i = v) [0..<length t]"

text \<open>
  \<open>tf.scatter_update(t, ids, v)\<close> with a scalar update, for indices in range (the builder
  passes indices that \<open>tf.argmax\<close> and \<open>tf.where\<close> returned for the same axis).
\<close>

definition scatter_update :: "int list \<Rightarrow> nat list \<Rightarrow> int \<Rightarrow> int list" where
  "scatter_update t ids v = fold (\<lambda>i l. l[i := v]) ids t"

text \<open>
  \<open>tf.gather\<close> and \<open>tf.gather_nd\<close> along the first axis. The kernels refuse an index out
  of range; the indices the builder passes come from \<open>tf.where\<close> and \<open>tf.argmax\<close> and
  are in range, as the theorem on the delta layout shows.
\<close>

definition gather :: "'a list \<Rightarrow> nat list \<Rightarrow> 'a list" where
  "gather t ids = map (\<lambda>i. t ! i) ids"

section \<open>Collaborators of the target builder that are not in the sources\<close>

text \<open>
  Modelled from the spec: \<open>trim_zeros\<close> of \<open>detection/utils/misc.py\<close>, which is not
  among the sources. The spec: rows of the ground truth that are all-zero are padding
  and are trimmed. The second component is the mask of the rows kept.
\<close>

definition trim_zeros :: "box list \<Rightarrow> box list \<times> bool list" where
  "trim_zeros boxes =
     (filter (\<lambda>b. b \<noteq> (0, 0, 0, 0)) boxes, map (\<lambda>b. b \<noteq> (0, 0, 0, 0)) boxes)"

text \<open>
  Modelled from the spec: \<open>compute_overlaps\<close> of \<open>detection/core/bbox/geometry.py\<close>,
  which is not among the sources. The spec: entry \<open>(i, j)\<close> is intersection area over
  union area, \<open>0\<close> when the union area is \<open>0\<close>, with
  intersection = max(0, min(y2) - max(y1)) * max(0, min(x2) - max(x1)) and
  union = area_a + area_b - intersection.
\<close>

fun iou :: "box \<Rightarrow> box \<Rightarrow> real" where
  "iou (ay1, ax1, ay2, ax2) (by1, bx1, by2, bx2) =
     (let intersection = max 0 (min ay2 by2 - max ay1 by1) * max 0 (min ax2 bx2 - max ax1 bx1);
          area_a = (ay2 - ay1) * (ax2 - ax1);
          area_b = (by2 - by1) * (bx2 - bx1);
          union = area_a + area_b - intersection
      in if union = 0 then 0 else intersection / union)"

definition compute_overlaps :: "box list \<Rightarrow> box list \<Rightarrow> real list list" where
  "compute_overlaps boxes_a boxes_b = map (\<lambda>a. map (iou a) boxes_b) boxes_a"

section \<open>The target builder (detection/core/anchor/anchor_target.py)\<close>

record AnchorTarget =
  target_means :: vec4
  target_stds :: vec4
  pos_iou_thr :: real
  neg_iou_thr :: real
  num_rpn_deltas :: int
  pos_fraction :: real

text \<open>\<open>__init__\<close>, lines 8-25.\<close>

definition AnchorTarget_init :: "vec4 \<Rightarrow> vec4 \<Rightarrow> AnchorTarget" where
  "AnchorTarget_init means stds =
     \<lparr>target_means = means, target_stds = stds, pos_iou_thr = 0.7, neg_iou_thr = 0.3,
      num_rpn_deltas = 256, pos_fraction = 0.5\<rparr>"

text \<open>
  \<open>_build_single_target\<close>, lines 82-116, on the trimmed ground truth: the labels before
  subsampling, with \<open>anchor_iou_argmax\<close> and \<open>gt_iou_argmax\<close>. The two thresholds are
  Python floats; lines 103 and 111 compare the float32 overlaps with their casts.
\<close>

definition match_anchors ::
  "arith \<Rightarrow> AnchorTarget \<Rightarrow> box list \<Rightarrow> int list \<Rightarrow> box list
     \<Rightarrow> error + (int list \<times> nat list \<times> nat list)" where
  "match_anchors A self anchors valid_flags gt_boxes =
    (let n = length anchors;
         target_matchs = replicate n (0::int);
         overlaps = compute_overlaps anchors gt_boxes
     in err_bind (tf_argmax_axis1 (length gt_boxes) overlaps) (\<lambda>anchor_iou_argmax.
        let anchor_iou_max = map reduce_max overlaps
        in err_bind (tf_where (map (\<lambda>v. flt v (rnd A (neg_iou_thr self))) anchor_iou_max)
                       (replicate n (- 1)) target_matchs) (\<lambda>target_matchs.
           err_bind (tf_where (map (\<lambda>f. f = 1) valid_flags)
                       target_matchs (replicate n 0)) (\<lambda>target_matchs.
           err_bind (tf_where (map (\<lambda>v. fge v (rnd A (pos_iou_thr self))) anchor_iou_max)
                       (replicate n 1) target_matchs) (\<lambda>target_matchs.
           err_bind (tf_argmax_axis0 (length gt_boxes) overlaps) (\<lambda>gt_iou_argmax.
           Inr (scatter_update target_matchs gt_iou_argmax 1,
                anchor_iou_argmax, gt_iou_argmax)))))))"

text \<open>
  Lines 121-136. \<open>random_shuffle\<close> is the random source: it stands for
  \<open>tf.random_shuffle\<close> and returns its argument in some order. The two calls shuffle
  different index lists, so one function covers every pair of outcomes.
\<close>

definition is_shuffle :: "(nat list \<Rightarrow> nat list) \<Rightarrow> bool" where
  "is_shuffle random_shuffle = (\<forall>ids. mset (random_shuffle ids) = mset ids)"

definition subsample :: "AnchorTarget \<Rightarrow> (nat list \<Rightarrow> nat list) \<Rightarrow> int list \<Rightarrow> int list" where
  "subsample self random_shuffle target_matchs =
    (let ids = where_equal 1 target_matchs;
         extra = int (length ids) - (num_rpn_deltas self div 2);
         target_matchs =
           (if extra > 0
            then scatter_update target_matchs (take (nat extra) (random_shuffle ids)) 0
            else target_matchs);
         ids = where_equal (- 1) target_matchs;
         extra = int (length ids) -
           (num_rpn_deltas self - sum_list (map (\<lambda>m. if m = 1 then 1 else 0) target_matchs))
     in if extra > 0
        then scatter_update target_matchs (take (nat extra) (random_shuffle ids)) 0
        else target_matchs)"

text \<open>Lines 141-151: the delta rows of the positive anchors, padded with zero rows.\<close>

definition zero_row :: frow where
  "zero_row = (Fin 0, Fin 0, Fin 0, Fin 0)"

definition pad_deltas ::
  "arith \<Rightarrow> AnchorTarget \<Rightarrow> box list \<Rightarrow> box list \<Rightarrow> nat list \<Rightarrow> int list \<Rightarrow> frow list" where
  "pad_deltas A self anchors gt_boxes anchor_iou_argmax target_matchs =
    (let ids = where_equal 1 target_matchs;
         a = gather anchors ids;
         anchor_idx = gather anchor_iou_argmax ids;
         gt = gather gt_boxes anchor_idx;
         target_deltas =
           map (\<lambda>(b, g). bbox2delta A b g (target_means self) (target_stds self)) (zip a gt);
         padding = max (num_rpn_deltas self - int (length target_deltas)) 0
     in target_deltas @ replicate (nat padding) zero_row)"

text \<open>\<open>_build_single_target\<close>, lines 65-153. The class ids are not used.\<close>

definition build_single_target ::
  "arith \<Rightarrow> AnchorTarget \<Rightarrow> (nat list \<Rightarrow> nat list) \<Rightarrow> box list \<Rightarrow> int list \<Rightarrow> box list
     \<Rightarrow> int list \<Rightarrow> error + (int list \<times> frow list)" where
  "build_single_target A self random_shuffle anchors valid_flags gt_boxes gt_class_ids =
    (let gt_boxes = fst (trim_zeros gt_boxes)
     in err_bind (match_anchors A self anchors valid_flags gt_boxes)
          (\<lambda>(target_matchs, anchor_iou_argmax, gt_iou_argmax).
             let target_matchs = subsample self random_shuffle target_matchs
             in Inr (target_matchs,
                     pad_deltas A self anchors gt_boxes anchor_iou_argmax target_matchs)))"

text \<open>What a call returns, when it returns: the labels and the delta rows.\<close>

definition returned_labels :: "error + (int list \<times> frow list) \<Rightarrow> int list option" where
  "returned_labels r = (case r of Inl e \<Rightarrow> None | Inr (target_matchs, target_deltas) \<Rightarrow> Some target_matchs)"

definition returned_deltas :: "error + (int list \<times> frow list) \<Rightarrow> frow list option" where
  "returned_deltas r = (case r of Inl e \<Rightarrow> None | Inr (target_matchs, target_deltas) \<Rightarrow> Some target_deltas)"

section \<open>Rounding to float32\<close>

lemma round_even_int [simp]: "round_even (of_int n) = n"
  by (simp add: round_even_def)

lemma round_even_zero [simp]: "round_even 0 = 0"
  using round_even_int [of 0] by simp

lemma round_even_lower: "of_int n \<le> a \<Longrightarrow> n \<le> round_even a"
proof -
  assume "of_int n \<le> a"
  then have "n \<le> \<lfloor>a\<rfloor>" by (simp add: le_floor_iff)
  then show ?thesis by (simp add: round_even_def Let_def)
qed

lemma round_even_upper: "a \<le> of_int n \<Longrightarrow> round_even a \<le> n"
proof -
  assume a: "a \<le> of_int n"
  show ?thesis
  proof (cases "a = of_int n")
    case True
    then show ?thesis by simp
  next
    case False
    with a have "a < of_int n" by simp
    then have "\<lfloor>a\<rfloor> < n" by (simp add: floor_less_iff)
    then show ?thesis by (simp add: round_even_def Let_def)
  qed
qed

lemma round_even_mono: "a \<le> b \<Longrightarrow> round_even a \<le> round_even b"
proof -
  assume ab: "a \<le> b"
  have f: "\<lfloor>a\<rfloor> \<le> \<lfloor>b\<rfloor>" using ab by (rule floor_mono)
  show ?thesis
  proof (cases "\<lfloor>a\<rfloor> = \<lfloor>b\<rfloor>")
    case True
    then show ?thesis using ab by (auto simp: round_even_def Let_def)
  next
    case False
    with f have "\<lfloor>a\<rfloor> + 1 \<le> \<lfloor>b\<rfloor>" by simp
    moreover have "round_even a \<le> \<lfloor>a\<rfloor> + 1" by (simp add: round_even_def Let_def)
    moreover have "\<lfloor>b\<rfloor> \<le> round_even b" by (simp add: round_even_def Let_def)
    ultimately show ?thesis by linarith
  qed
qed

lemma round_even_minus: "round_even (- a) = - round_even a"
proof (cases "a \<in> \<int>")
  case True
  then obtain n where "a = of_int n" by (auto elim: Ints_cases)
  then have "- a = of_int (- n)" by simp
  then show ?thesis unfolding \<open>a = of_int n\<close> by (simp only: round_even_int)
next
  case False
  then have "a \<noteq> of_int \<lfloor>a\<rfloor>" by (metis Ints_of_int)
  then have fl: "\<lfloor>- a\<rfloor> = - \<lfloor>a\<rfloor> - 1"
    by (simp add: floor_minus ceiling_altdef)
  have r: "- a - of_int \<lfloor>- a\<rfloor> = 1 - (a - of_int \<lfloor>a\<rfloor>)"
    by (simp add: fl)
  show ?thesis
    unfolding round_even_def Let_def r unfolding fl by auto
qed

lemma ulp32_pos [simp]: "0 < ulp32 x"
  by (simp add: ulp32_def)

lemma ulp32_minus [simp]: "ulp32 (- x) = ulp32 x"
  by (simp add: ulp32_def exponent32_def)

lemma round32_minus: "round32 (- x) = - round32 x"
  by (simp add: round32_def round_even_minus)

lemma round32_zero [simp]: "round32 0 = 0"
  by (simp add: round32_def)

lemma round32_nonneg: "0 \<le> x \<Longrightarrow> 0 \<le> round32 x"
proof -
  assume "0 \<le> x"
  then have "of_int 0 \<le> x / ulp32 x"
    using ulp32_pos [of x] by (simp add: zero_le_divide_iff less_imp_le)
  then have "0 \<le> round_even (x / ulp32 x)" by (rule round_even_lower)
  then show ?thesis
    using ulp32_pos [of x] by (simp add: round32_def zero_le_mult_iff less_imp_le)
qed

lemma round32_nonpos: "x \<le> 0 \<Longrightarrow> round32 x \<le> 0"
  using round32_nonneg [of "- x"] by (simp add: round32_minus)

lemma ulp32_scaled:
  assumes "2 ^ 23 \<le> \<bar>x\<bar> * 2 ^ k" "\<bar>x\<bar> * 2 ^ k < 2 ^ 24" "k \<le> 149"
  shows "ulp32 x = 1 / 2 ^ k"
proof -
  have x: "0 < \<bar>x\<bar>" using assms(1) by (cases "x = 0") simp_all
  have p: "(2::real) powr of_int (23 - int k) = 2 ^ 23 / 2 ^ k"
    by (simp add: powr_diff powr_realpow)
  have q: "(2::real) powr of_int (23 - int k + 1) = 2 ^ 24 / 2 ^ k"
    by (simp add: powr_diff powr_realpow powr_add)
  have "2 ^ 23 / 2 ^ k \<le> \<bar>x\<bar>" using assms(1) by (simp add: field_simps)
  moreover have "\<bar>x\<bar> < 2 ^ 24 / 2 ^ k" using assms(2) by (simp add: field_simps)
  ultimately have "\<lfloor>log 2 \<bar>x\<bar>\<rfloor> = 23 - int k"
    using floor_log_eq_powr_iff [of "\<bar>x\<bar>" 2 "23 - int k"] x unfolding p q by simp
  moreover have "- 126 \<le> 23 - int k" using assms(3) by simp
  ultimately have "ulp32 x = 2 powr of_int (- int k)"
    by (simp add: ulp32_def exponent32_def max_def)
  also have "\<dots> = 1 / 2 ^ k"
    by (simp add: powr_minus powr_realpow field_simps)
  finally show ?thesis .
qed

text \<open>
  Evaluating the rounding of a value below \<open>2 ^ 24\<close>: scale it by the power of two
  that brings it between \<open>2 ^ 23\<close> and \<open>2 ^ 24\<close>, and round there.
\<close>

lemma float32_scaled:
  assumes "2 ^ 23 \<le> \<bar>x\<bar> * 2 ^ k" "\<bar>x\<bar> * 2 ^ k < 2 ^ 24" "k \<le> 149"
  shows "float32 x = Fin (of_int (round_even (x * 2 ^ k)) / 2 ^ k)"
proof -
  have u: "ulp32 x = 1 / 2 ^ k" by (rule ulp32_scaled [OF assms])
  have r: "round32 x = of_int (round_even (x * 2 ^ k)) / 2 ^ k"
    by (simp add: round32_def u)
  have "\<bar>x * 2 ^ k\<bar> \<le> of_int (2 ^ 24)" using assms(2) by (simp add: abs_mult)
  then have c: "x * 2 ^ k \<le> of_int (2 ^ 24)" "of_int (- (2 ^ 24)) \<le> x * 2 ^ k" by simp_all
  have b: "round_even (x * 2 ^ k) \<le> 2 ^ 24" "- (2 ^ 24) \<le> round_even (x * 2 ^ k)"
    using round_even_upper [OF c(1)] round_even_lower [OF c(2)] by simp_all
  have k: "(1::real) \<le> 2 ^ k" by simp
  have "\<bar>round32 x\<bar> \<le> 2 ^ 24"
  proof -
    have "\<bar>of_int (round_even (x * 2 ^ k)) :: real\<bar> \<le> 2 ^ 24"
      using b by (simp add: abs_le_iff)
    then have "\<bar>round32 x\<bar> \<le> 2 ^ 24 / 2 ^ k"
      unfolding r by (simp add: divide_right_mono)
    also have "\<dots> \<le> 2 ^ 24" using k by (simp add: field_simps)
    finally show ?thesis .
  qed
  moreover have "(2::real) ^ 24 < 2 ^ 128" by simp
  ultimately have "\<not> 2 ^ 128 \<le> round32 x" "\<not> round32 x \<le> - (2 ^ 128)" by linarith+
  then show ?thesis by (simp add: float32_def r)
qed

lemma float32_zero [simp]: "float32 0 = Fin 0"
  by (simp add: float32_def)

lemma float32_not_NaN [simp]: "float32 x \<noteq> NaN"
  by (simp add: float32_def)

text \<open>The two thresholds of the target builder, as line 103 and line 111 compare them.\<close>

lemma float32_pos_iou_thr: "float32 0.7 = Fin (11744051 / 16777216)"
  by (subst float32_scaled [where k = 24]) (simp_all add: round_even_def)

lemma float32_neg_iou_thr: "float32 0.3 = Fin (5033165 / 16777216)"
  by (subst float32_scaled [where k = 25]) (simp_all add: round_even_def)

text \<open>Rounding is monotone.\<close>

lemma round32_below_next:
  assumes "0 < x"
  shows "round32 x \<le> 2 powr of_int (exponent32 x + 1)"
proof -
  have "log 2 x < of_int (\<lfloor>log 2 x\<rfloor> + 1)" by linarith
  also have "\<dots> \<le> of_int (exponent32 x + 1)" using assms by (simp add: exponent32_def)
  finally have "log 2 x < of_int (exponent32 x + 1)" .
  then have "x < 2 powr of_int (exponent32 x + 1)"
    using assms by (simp add: log_less_iff)
  then have "x / ulp32 x < 2 powr of_int (exponent32 x + 1) / ulp32 x"
    by (simp add: divide_strict_right_mono)
  also have "2 powr of_int (exponent32 x + 1) / ulp32 x = 2 powr 24"
    unfolding ulp32_def by (simp add: powr_diff [symmetric])
  also have "\<dots> = of_int (2 ^ 24)"
    by (simp add: powr_realpow [symmetric])
  finally have "round_even (x / ulp32 x) \<le> 2 ^ 24"
    by (intro round_even_upper less_imp_le)
  then have "of_int (round_even (x / ulp32 x)) \<le> (2 ^ 24 :: real)"
    by (metis of_int_le_iff of_int_numeral of_int_power)
  then have "round32 x \<le> 2 ^ 24 * ulp32 x"
    unfolding round32_def by (simp add: mult_right_mono less_imp_le)
  also have "\<dots> = 2 powr 24 * ulp32 x" by (simp add: powr_realpow [symmetric])
  also have "\<dots> = 2 powr (24 + of_int (exponent32 x - 23))"
    unfolding ulp32_def by (simp only: powr_add)
  also have "24 + of_int (exponent32 x - 23) = (of_int (exponent32 x + 1) :: real)" by simp
  finally show ?thesis .
qed

lemma round32_above_prev:
  assumes "0 < x" "- 126 < exponent32 x"
  shows "2 powr of_int (exponent32 x) \<le> round32 x"
proof -
  have e: "exponent32 x = \<lfloor>log 2 x\<rfloor>"
    using assms by (simp add: exponent32_def max_def split: if_splits)
  have "of_int (exponent32 x) \<le> log 2 x" unfolding e by simp
  then have "2 powr of_int (exponent32 x) \<le> x"
    using assms(1) by (simp add: le_log_iff)
  then have "2 powr of_int (exponent32 x) / ulp32 x \<le> x / ulp32 x"
    by (simp add: divide_right_mono less_imp_le)
  moreover have "2 powr of_int (exponent32 x) / ulp32 x = 2 powr 23"
    unfolding ulp32_def by (simp add: powr_diff [symmetric])
  moreover have "(2::real) powr 23 = of_int (2 ^ 23)"
    by (simp add: powr_realpow [symmetric])
  ultimately have "of_int (2 ^ 23) \<le> x / ulp32 x" by simp
  then have "2 ^ 23 \<le> round_even (x / ulp32 x)" by (rule round_even_lower)
  then have "(2 ^ 23 :: real) \<le> of_int (round_even (x / ulp32 x))"
    by (metis of_int_le_iff of_int_numeral of_int_power)
  then have "2 ^ 23 * ulp32 x \<le> round32 x"
    unfolding round32_def by (simp add: mult_right_mono less_imp_le)
  moreover have "2 ^ 23 * ulp32 x = 2 powr 23 * ulp32 x" by (simp add: powr_realpow [symmetric])
  moreover have "2 powr 23 * ulp32 x = 2 powr (23 + of_int (exponent32 x - 23))"
    unfolding ulp32_def by (simp only: powr_add)
  moreover have "23 + of_int (exponent32 x - 23) = (of_int (exponent32 x) :: real)" by simp
  ultimately show ?thesis by simp
qed

lemma round32_mono_pos:
  assumes "0 < x" "x \<le> y"
  shows "round32 x \<le> round32 y"
proof -
  have y: "0 < y" using assms by simp
  have "log 2 x \<le> log 2 y" using assms by simp
  then have "\<lfloor>log 2 x\<rfloor> \<le> \<lfloor>log 2 y\<rfloor>" by (rule floor_mono)
  then have le: "exponent32 x \<le> exponent32 y" using assms y by (simp add: exponent32_def)
  show ?thesis
  proof (cases "exponent32 x = exponent32 y")
    case True
    then have u: "ulp32 x = ulp32 y" by (simp add: ulp32_def)
    have "x / ulp32 y \<le> y / ulp32 y" using assms(2) by (simp add: divide_right_mono less_imp_le)
    then have "round_even (x / ulp32 y) \<le> round_even (y / ulp32 y)" by (rule round_even_mono)
    then show ?thesis unfolding round32_def u by (simp add: mult_right_mono less_imp_le)
  next
    case False
    with le have lt: "exponent32 x + 1 \<le> exponent32 y" by simp
    have "- 126 \<le> exponent32 x" by (simp add: exponent32_def)
    with lt have "- 126 < exponent32 y" by simp
    then have "2 powr of_int (exponent32 y) \<le> round32 y" by (rule round32_above_prev [OF y])
    moreover have "round32 x \<le> 2 powr of_int (exponent32 x + 1)"
      by (rule round32_below_next [OF assms(1)])
    moreover have "(2::real) powr of_int (exponent32 x + 1) \<le> 2 powr of_int (exponent32 y)"
      using lt by (simp only: powr_le_cancel_iff of_int_le_iff)
    ultimately show ?thesis by linarith
  qed
qed

lemma round32_mono: "x \<le> y \<Longrightarrow> round32 x \<le> round32 y"
proof -
  assume xy: "x \<le> y"
  consider "0 < x" | "x \<le> 0" "0 \<le> y" | "y < 0" by linarith
  then show ?thesis
  proof cases
    case 1
    then show ?thesis using xy by (rule round32_mono_pos)
  next
    case 2
    then show ?thesis using round32_nonpos [of x] round32_nonneg [of y] by linarith
  next
    case 3
    then have "0 < - y" "- y \<le> - x" using xy by simp_all
    then have "round32 (- y) \<le> round32 (- x)" by (rule round32_mono_pos)
    then show ?thesis by (simp add: round32_minus)
  qed
qed

section \<open>The box parameterization\<close>

lemma float32_arith_fields [simp]:
  "rnd (float32_arith log_kernel exp_kernel) = float32"
  "tf_log (float32_arith log_kernel exp_kernel) = log_kernel"
  "tf_exp (float32_arith log_kernel exp_kernel) = exp_kernel"
  by (simp_all add: float32_arith_def)

lemma exact_arith_fields [simp]:
  "rnd exact_arith = Fin"
  "tf_log exact_arith = (\<lambda>x. Fin (ln x))"
  "tf_exp exact_arith = (\<lambda>x. Fin (exp x))"
  by (simp_all add: exact_arith_def)

lemma fsub_Fin [simp]: "fsub A (Fin a) (Fin b) = rnd A (a - b)"
  by (simp add: fsub_def)

lemma bbox2delta_exact:
  assumes "y1 < y2" "x1 < x2" "gy1 < gy2" "gx1 < gx2"
  shows "bbox2delta exact_arith (y1, x1, y2, x2) (gy1, gx1, gy2, gx2) (m0, m1, m2, m3) (s0, s1, s2, s3) =
     (fdiv exact_arith (Fin (((gy1 + 0.5 * (gy2 - gy1)) - (y1 + 0.5 * (y2 - y1))) / (y2 - y1) - m0)) (Fin s0),
      fdiv exact_arith (Fin (((gx1 + 0.5 * (gx2 - gx1)) - (x1 + 0.5 * (x2 - x1))) / (x2 - x1) - m1)) (Fin s1),
      fdiv exact_arith (Fin (ln ((gy2 - gy1) / (y2 - y1)) - m2)) (Fin s2),
      fdiv exact_arith (Fin (ln ((gx2 - gx1) / (x2 - x1)) - m3)) (Fin s3))"
  using assms by (simp add: Let_def)

text \<open>
  C1 over the reals, the half of the claim that holds. In the arithmetic of the reals
  (\<open>exact_arith\<close>), for a box and a ground-truth box with positive heights and widths,
  any means and positive stds, decoding the encoded delta gives back the ground-truth
  box exactly.
\<close>

theorem C1_roundtrip:
  assumes "y1 < y2" "x1 < x2" "gy1 < gy2" "gx1 < gx2"
    and "0 < s0" "0 < s1" "0 < s2" "0 < s3"
  shows "delta2bbox exact_arith (y1, x1, y2, x2)
           (bbox2delta exact_arith (y1, x1, y2, x2) (gy1, gx1, gy2, gx2) (m0, m1, m2, m3) (s0, s1, s2, s3))
           (m0, m1, m2, m3) (s0, s1, s2, s3) = fin_row (gy1, gx1, gy2, gx2)"
  unfolding bbox2delta_exact [OF assms(1-4)] fin_row_def
  using assms by (simp add: Let_def)

theorem C1_roundtrip_witness:
  "(0::real) < 10 \<and> (0::real) < 20 \<and> (2::real) < 12 \<and> (3::real) < 23 \<and>
   (0::real) < 0.1 \<and> (0::real) < 0.2 \<and>
   delta2bbox exact_arith (0, 0, 10, 20)
     (bbox2delta exact_arith (0, 0, 10, 20) (2, 3, 12, 23) (0, 0, 0, 0) (0.1, 0.1, 0.2, 0.2))
     (0, 0, 0, 0) (0.1, 0.1, 0.2, 0.2) = fin_row (2, 3, 12, 23)"
proof -
  have r: "delta2bbox exact_arith (0, 0, 10, 20)
     (bbox2delta exact_arith (0, 0, 10, 20) (2, 3, 12, 23) (0, 0, 0, 0) (0.1, 0.1, 0.2, 0.2))
     (0, 0, 0, 0) (0.1, 0.1, 0.2, 0.2) = fin_row (2, 3, 12, 23)"
    by (rule C1_roundtrip) simp_all
  show ?thesis
    by (intro conjI r) simp_all
qed

text \<open>
  The roundings of the run of the two functions in float32 on the box (0, 0, 9, 9) and
  the ground-truth box (926, 0, 935, 9), with means 0 and stds (0.1, 0.1, 0.2, 0.2).
\<close>

lemma far_box_0: "float32 9 = Fin 9"
  by (subst float32_scaled [where k = 20]) (simp_all add: round_even_def)

lemma far_box_1: "float32 926 = Fin 926"
  by (subst float32_scaled [where k = 14]) (simp_all add: round_even_def)

lemma far_box_2: "float32 935 = Fin 935"
  by (subst float32_scaled [where k = 14]) (simp_all add: round_even_def)

lemma far_box_3: "float32 (1 / 2) = Fin (1 / 2)"
  by (subst float32_scaled [where k = 24]) (simp_all add: round_even_def)

lemma far_box_4: "float32 (9 / 2) = Fin (9 / 2)"
  by (subst float32_scaled [where k = 21]) (simp_all add: round_even_def)

lemma far_box_5: "float32 (1861 / 2) = Fin (1861 / 2)"
  by (subst float32_scaled [where k = 14]) (simp_all add: round_even_def)

lemma far_box_6: "float32 (926 / 9) = Fin (3371463 / 32768)"
  by (subst float32_scaled [where k = 17]) (simp_all add: round_even_def)

lemma far_box_7: "float32 1 = Fin 1"
  by (subst float32_scaled [where k = 23]) (simp_all add: round_even_def)

lemma far_box_8: "float32 (3371463 / 32768) = Fin (3371463 / 32768)"
  by (subst float32_scaled [where k = 17]) (simp_all add: round_even_def)

lemma far_box_9: "float32 (1 / 10) = Fin (13421773 / 134217728)"
  by (subst float32_scaled [where k = 27]) (simp_all add: round_even_def)

lemma far_box_10: "float32 (13809512448 / 13421773) = Fin (8428657 / 8192)"
  by (subst float32_scaled [where k = 13]) (simp_all add: round_even_def)

lemma far_box_11: "float32 (1 / 5) = Fin (13421773 / 67108864)"
  by (subst float32_scaled [where k = 26]) (simp_all add: round_even_def)

lemma far_box_12: "float32 (113127520948861 / 1099511627776) = Fin (13485851 / 131072)"
  by (subst float32_scaled [where k = 17]) (simp_all add: round_even_def)

lemma far_box_13: "float32 (13485851 / 131072) = Fin (13485851 / 131072)"
  by (subst float32_scaled [where k = 17]) (simp_all add: round_even_def)

lemma far_box_14: "float32 (121372659 / 131072) = Fin (7585791 / 8192)"
  by (subst float32_scaled [where k = 14]) (simp_all add: round_even_def)

lemma far_box_15: "float32 (7622655 / 8192) = Fin (7622655 / 8192)"
  by (subst float32_scaled [where k = 14]) (simp_all add: round_even_def)

lemma far_box_16: "float32 (7585791 / 8192) = Fin (7585791 / 8192)"
  by (subst float32_scaled [where k = 14]) (simp_all add: round_even_def)

lemma far_box_17: "float32 (7659519 / 8192) = Fin (7659519 / 8192)"
  by (subst float32_scaled [where k = 14]) (simp_all add: round_even_def)

lemmas far_box = far_box_0 far_box_1 far_box_2 far_box_3 far_box_4 far_box_5 far_box_6 far_box_7 far_box_8 far_box_9 far_box_10 far_box_11 far_box_12 far_box_13 far_box_14 far_box_15 far_box_16 far_box_17

lemma far_box_roundtrip:
  assumes "log_kernel 1 = Fin 0" "exp_kernel 0 = Fin 1"
  shows "delta2bbox (float32_arith log_kernel exp_kernel) (0, 0, 9, 9)
     (bbox2delta (float32_arith log_kernel exp_kernel) (0, 0, 9, 9) (926, 0, 935, 9)
        (0, 0, 0, 0) (0.1, 0.1, 0.2, 0.2))
     (0, 0, 0, 0) (0.1, 0.1, 0.2, 0.2) =
   (Fin (7585791 / 8192), Fin 0, Fin (7659519 / 8192), Fin 9)"
  by (simp add: Let_def far_box assms)

text \<open>
  C1 as the spec has it fails in float32, the arithmetic of the program: on the boxes
  above the heights and widths are equal, so the logarithm is taken at 1 and the
  exponential at 0, where the kernels are exact; the roundings of the shift alone put
  y1 and y2 of the decoded box more than 1e-4 away from 926 and 935.
\<close>

theorem C1_counterexample:
  "delta2bbox float32_rounded (0, 0, 9, 9)
     (bbox2delta float32_rounded (0, 0, 9, 9) (926, 0, 935, 9) (0, 0, 0, 0) (0.1, 0.1, 0.2, 0.2))
     (0, 0, 0, 0) (0.1, 0.1, 0.2, 0.2) =
   (Fin (7585791 / 8192), Fin 0, Fin (7659519 / 8192), Fin 9) \<and>
   1 / 10000 < \<bar>926 - 7585791 / 8192 :: real\<bar> \<and>
   1 / 10000 < \<bar>935 - 7659519 / 8192 :: real\<bar>"
proof -
  have "delta2bbox float32_rounded (0, 0, 9, 9)
     (bbox2delta float32_rounded (0, 0, 9, 9) (926, 0, 935, 9) (0, 0, 0, 0) (0.1, 0.1, 0.2, 0.2))
     (0, 0, 0, 0) (0.1, 0.1, 0.2, 0.2) =
   (Fin (7585791 / 8192), Fin 0, Fin (7659519 / 8192), Fin 9)"
    unfolding float32_rounded_def by (rule far_box_roundtrip) (simp_all add: far_box)
  then show ?thesis by simp
qed

lemma float32_nonneg:
  assumes "0 \<le> x"
  shows "float32 x = PInf \<or> (\<exists>r\<ge>0. float32 x = Fin r)"
  using round32_nonneg [OF assms] by (auto simp: float32_def)

lemma float32_cases:
  obtains "2 ^ 128 \<le> round32 x" "float32 x = PInf"
  | "\<not> 2 ^ 128 \<le> round32 x" "round32 x \<le> - (2 ^ 128)" "float32 x = NInf"
  | "\<not> 2 ^ 128 \<le> round32 x" "\<not> round32 x \<le> - (2 ^ 128)" "float32 x = Fin (round32 x)"
  by (cases "2 ^ 128 \<le> round32 x"; cases "round32 x \<le> - (2 ^ 128)") (simp_all add: float32_def)

lemma float32_difference:
  assumes "a \<le> b"
  shows "fsub (float32_arith log_kernel exp_kernel) (float32 b) (float32 a) = NaN \<or>
         fsub (float32_arith log_kernel exp_kernel) (float32 b) (float32 a) = PInf \<or>
         (\<exists>r\<ge>0. fsub (float32_arith log_kernel exp_kernel) (float32 b) (float32 a) = Fin r)"
proof -
  note m = round32_mono [OF assms]
  show ?thesis
  proof (cases b rule: float32_cases)
    case 1
    then show ?thesis by (cases "float32 a") (simp_all add: fsub_def)
  next
    case 2
    with m have "float32 a = NInf" by (simp add: float32_def)
    with 2 show ?thesis by (simp add: fsub_def)
  next
    case b: 3
    show ?thesis
    proof (cases a rule: float32_cases)
      case 1
      with m b show ?thesis by simp
    next
      case 2
      with b show ?thesis by (simp add: fsub_def)
    next
      case 3
      have "0 \<le> round32 b - round32 a" using m by simp
      from float32_nonneg [OF this] show ?thesis unfolding b(3) 3(3) by simp
    qed
  qed
qed

lemma not_positive_cases:
  assumes "h = NaN \<or> h = PInf \<or> (\<exists>r\<ge>0. h = Fin r)" "\<not> flt (Fin 0) h"
  shows "h = Fin 0 \<or> h = NaN"
  using assms by auto

lemma fdiv_by_zero: "\<not> is_finite (fdiv A x (Fin 0))"
  by (cases x) (simp_all add: signed_inf_def)

lemma fdiv_by_NaN [simp]: "fdiv A x NaN = NaN"
  by (cases x) simp_all

lemma fsub_not_finite: "\<not> is_finite d \<Longrightarrow> \<not> is_finite (fsub A d m)"
  by (cases d; cases m) (simp_all add: fsub_def)

lemma fdiv_not_finite: "\<not> is_finite d \<Longrightarrow> \<not> is_finite (fdiv A d s)"
  by (cases d; cases s) simp_all

lemma flog_not_finite: "\<not> is_finite x \<Longrightarrow> \<not> is_finite (flog A x)"
  by (cases x) simp_all

lemma normalized_not_finite: "\<not> is_finite d \<Longrightarrow> \<not> is_finite (fdiv A (fsub A d m) s)"
  by (intro fdiv_not_finite fsub_not_finite)

lemma shift_not_finite:
  assumes "h = Fin 0 \<or> h = NaN"
  shows "\<not> is_finite (fdiv A x h)"
  using assms fdiv_by_zero [of A x] by auto

lemma scale_not_finite:
  assumes "g = Fin 0 \<or> g = NaN" "flt (Fin 0) h"
  shows "\<not> is_finite (flog (float32_arith log_kernel exp_kernel) (fdiv (float32_arith log_kernel exp_kernel) g h))"
proof -
  from assms(1) show ?thesis
  proof
    assume g: "g = Fin 0"
    have "fdiv (float32_arith log_kernel exp_kernel) (Fin 0) h = Fin 0"
      using assms(2) by (cases h) simp_all
    then show ?thesis by (simp add: g)
  next
    assume "g = NaN"
    then show ?thesis by simp
  qed
qed

text \<open>The coordinates of the boxes evaluated below are float32 values.\<close>

lemma small_boxes:
  "float32 2 = Fin 2"
  "float32 3 = Fin 3"
  "float32 5 = Fin 5"
  "float32 10 = Fin 10"
  "float32 12 = Fin 12"
  "float32 20 = Fin 20"
  "float32 23 = Fin 23"
  subgoal by (subst float32_scaled [where k = 22]) (simp_all add: round_even_def)
  subgoal by (subst float32_scaled [where k = 22]) (simp_all add: round_even_def)
  subgoal by (subst float32_scaled [where k = 21]) (simp_all add: round_even_def)
  subgoal by (subst float32_scaled [where k = 20]) (simp_all add: round_even_def)
  subgoal by (subst float32_scaled [where k = 20]) (simp_all add: round_even_def)
  subgoal by (subst float32_scaled [where k = 19]) (simp_all add: round_even_def)
  subgoal by (subst float32_scaled [where k = 19]) (simp_all add: round_even_def)
  done

text \<open>
  C7. In the float32 arithmetic of the program, whatever the kernels of the logarithm
  and the exponential: with h, w, gt_h, gt_w, cy, cx, gt_cy, gt_cx the heights, widths
  and centers as lines 16-24 compute them, when h, w, gt_h and gt_w are positive the
  row is (((gt_cy - cy) / h, (gt_cx - cx) / w, log (gt_h / h), log (gt_w / w)) - means)
  / stds, each operation rounded. For a box and a ground-truth box with y1 \<le> y2 and
  x1 \<le> x2 (the invariant of the spec's boxes), when one of h, w, gt_h, gt_w is not
  positive the row is not finite: one of its entries is an infinity or NaN.
\<close>

theorem C7_bbox2delta_postcondition:
  "(let A = float32_arith log_kernel exp_kernel;
        h = fsub A (rnd A y2) (rnd A y1);
        w = fsub A (rnd A x2) (rnd A x1);
        cy = fadd A (rnd A y1) (fmul A (rnd A 0.5) h);
        cx = fadd A (rnd A x1) (fmul A (rnd A 0.5) w);
        gt_h = fsub A (rnd A gy2) (rnd A gy1);
        gt_w = fsub A (rnd A gx2) (rnd A gx1);
        gt_cy = fadd A (rnd A gy1) (fmul A (rnd A 0.5) gt_h);
        gt_cx = fadd A (rnd A gx1) (fmul A (rnd A 0.5) gt_w);
        delta = bbox2delta A (y1, x1, y2, x2) (gy1, gx1, gy2, gx2) (m0, m1, m2, m3) (s0, s1, s2, s3)
    in (flt (Fin 0) h \<and> flt (Fin 0) w \<and> flt (Fin 0) gt_h \<and> flt (Fin 0) gt_w \<longrightarrow>
          delta = (fdiv A (fsub A (fdiv A (fsub A gt_cy cy) h) (rnd A m0)) (rnd A s0),
                   fdiv A (fsub A (fdiv A (fsub A gt_cx cx) w) (rnd A m1)) (rnd A s1),
                   fdiv A (fsub A (flog A (fdiv A gt_h h)) (rnd A m2)) (rnd A s2),
                   fdiv A (fsub A (flog A (fdiv A gt_w w)) (rnd A m3)) (rnd A s3))) \<and>
       (y1 \<le> y2 \<and> x1 \<le> x2 \<and> gy1 \<le> gy2 \<and> gx1 \<le> gx2 \<and>
        \<not> (flt (Fin 0) h \<and> flt (Fin 0) w \<and> flt (Fin 0) gt_h \<and> flt (Fin 0) gt_w) \<longrightarrow>
          \<not> row_finite delta))"
proof -
  let ?A = "float32_arith log_kernel exp_kernel"
  let ?h = "fsub ?A (float32 y2) (float32 y1)"
  let ?w = "fsub ?A (float32 x2) (float32 x1)"
  let ?gh = "fsub ?A (float32 gy2) (float32 gy1)"
  let ?gw = "fsub ?A (float32 gx2) (float32 gx1)"
  let ?delta = "bbox2delta ?A (y1, x1, y2, x2) (gy1, gx1, gy2, gx2) (m0, m1, m2, m3) (s0, s1, s2, s3)"
  have degenerate: "\<not> row_finite ?delta"
    if box: "y1 \<le> y2" "x1 \<le> x2" "gy1 \<le> gy2" "gx1 \<le> gx2"
      and pre: "\<not> (flt (Fin 0) ?h \<and> flt (Fin 0) ?w \<and> flt (Fin 0) ?gh \<and> flt (Fin 0) ?gw)"
  proof -
    note sh = float32_difference [OF box(1), of log_kernel exp_kernel]
    note sw = float32_difference [OF box(2), of log_kernel exp_kernel]
    note sgh = float32_difference [OF box(3), of log_kernel exp_kernel]
    note sgw = float32_difference [OF box(4), of log_kernel exp_kernel]
    consider "?h = Fin 0 \<or> ?h = NaN" | "?w = Fin 0 \<or> ?w = NaN"
      | "flt (Fin 0) ?h" "?gh = Fin 0 \<or> ?gh = NaN"
      | "flt (Fin 0) ?w" "?gw = Fin 0 \<or> ?gw = NaN"
      using pre not_positive_cases [OF sh] not_positive_cases [OF sw]
        not_positive_cases [OF sgh] not_positive_cases [OF sgw] by blast
    then show ?thesis
    proof cases
      case 1
      show ?thesis
        unfolding bbox2delta.simps Let_def row_finite_def prod.case float32_arith_fields
        using normalized_not_finite [OF shift_not_finite [OF 1]] by blast
    next
      case 2
      show ?thesis
        unfolding bbox2delta.simps Let_def row_finite_def prod.case float32_arith_fields
        using normalized_not_finite [OF shift_not_finite [OF 2]] by blast
    next
      case 3
      show ?thesis
        unfolding bbox2delta.simps Let_def row_finite_def prod.case float32_arith_fields
        using normalized_not_finite [OF scale_not_finite [OF 3(2) 3(1)]] by blast
    next
      case 4
      show ?thesis
        unfolding bbox2delta.simps Let_def row_finite_def prod.case float32_arith_fields
        using normalized_not_finite [OF scale_not_finite [OF 4(2) 4(1)]] by blast
    qed
  qed
  show ?thesis
    unfolding Let_def float32_arith_fields
    using degenerate by (simp add: Let_def)
qed

theorem C7_bbox2delta_postcondition_witness:
  "(let A = float32_rounded;
        h = fsub A (rnd A 10) (rnd A 0);
        w = fsub A (rnd A 20) (rnd A 0);
        cy = fadd A (rnd A 0) (fmul A (rnd A 0.5) h);
        cx = fadd A (rnd A 0) (fmul A (rnd A 0.5) w);
        gt_h = fsub A (rnd A 12) (rnd A 2);
        gt_w = fsub A (rnd A 23) (rnd A 3);
        gt_cy = fadd A (rnd A 2) (fmul A (rnd A 0.5) gt_h);
        gt_cx = fadd A (rnd A 3) (fmul A (rnd A 0.5) gt_w);
        delta = bbox2delta A (0, 0, 10, 20) (2, 3, 12, 23) (0, 0, 0, 0) (0.1, 0.1, 0.2, 0.2)
    in (flt (Fin 0) h \<and> flt (Fin 0) w \<and> flt (Fin 0) gt_h \<and> flt (Fin 0) gt_w) \<and>
       delta = (fdiv A (fsub A (fdiv A (fsub A gt_cy cy) h) (rnd A 0)) (rnd A 0.1),
                fdiv A (fsub A (fdiv A (fsub A gt_cx cx) w) (rnd A 0)) (rnd A 0.1),
                fdiv A (fsub A (flog A (fdiv A gt_h h)) (rnd A 0)) (rnd A 0.2),
                fdiv A (fsub A (flog A (fdiv A gt_w w)) (rnd A 0)) (rnd A 0.2))) \<and>
   (let A = float32_rounded;
        h = fsub A (rnd A 10) (rnd A 0);
        w = fsub A (rnd A 20) (rnd A 0);
        gt_h = fsub A (rnd A 5) (rnd A 5);
        gt_w = fsub A (rnd A 23) (rnd A 3)
    in ((0::real) \<le> 10 \<and> (0::real) \<le> 20 \<and> (5::real) \<le> 5 \<and> (3::real) \<le> 23) \<and>
       \<not> (flt (Fin 0) h \<and> flt (Fin 0) w \<and> flt (Fin 0) gt_h \<and> flt (Fin 0) gt_w) \<and>
       \<not> row_finite (bbox2delta A (0, 0, 10, 20) (5, 3, 5, 23) (0, 0, 0, 0) (0.1, 0.1, 0.2, 0.2)))"
proof -
  note a = C7_bbox2delta_postcondition [of "\<lambda>x. float32 (ln x)" "\<lambda>x. float32 (exp x)"
      10 0 20 0 12 2 23 3 0 0 0 0 "0.1" "0.1" "0.2" "0.2", folded float32_rounded_def, unfolded Let_def]
  note b = C7_bbox2delta_postcondition [of "\<lambda>x. float32 (ln x)" "\<lambda>x. float32 (exp x)"
      10 0 20 0 5 5 23 3 0 0 0 0 "0.1" "0.1" "0.2" "0.2", folded float32_rounded_def, unfolded Let_def]
  have r: "rnd float32_rounded = float32" by (simp add: float32_rounded_def)
  have pre: "flt (Fin 0) (fsub float32_rounded (rnd float32_rounded 10) (rnd float32_rounded 0)) \<and>
      flt (Fin 0) (fsub float32_rounded (rnd float32_rounded 20) (rnd float32_rounded 0)) \<and>
      flt (Fin 0) (fsub float32_rounded (rnd float32_rounded 12) (rnd float32_rounded 2)) \<and>
      flt (Fin 0) (fsub float32_rounded (rnd float32_rounded 23) (rnd float32_rounded 3))"
    by (simp add: r small_boxes)
  have box: "(0::real) \<le> 10 \<and> (0::real) \<le> 20 \<and> (5::real) \<le> 5 \<and> (3::real) \<le> 23"
    by simp
  have deg: "\<not> flt (Fin 0) (fsub float32_rounded (rnd float32_rounded 5) (rnd float32_rounded 5))"
    by (simp add: r small_boxes)
  show ?thesis
    unfolding Let_def using a b pre box deg by blast
qed

text \<open>
  C9. Every coordinate of every box is max (min v hi) lo against the window bounds of its
  axis; the rows keep their four columns and their number; when the window is not empty
  (wy1 \<le> wy2 and wx1 \<le> wx2) every coordinate of the result lies in the window's
  interval for its axis.
\<close>

theorem C9_bbox_clip:
  "bbox_clip boxes (wy1, wx1, wy2, wx2) =
     map (\<lambda>(y1, x1, y2, x2). (max (min y1 wy2) wy1, max (min x1 wx2) wx1,
                              max (min y2 wy2) wy1, max (min x2 wx2) wx1)) boxes \<and>
   length (bbox_clip boxes (wy1, wx1, wy2, wx2)) = length boxes \<and>
   (\<forall>r \<in> set (bbox_clip boxes (wy1, wx1, wy2, wx2)). length (columns r) = 4) \<and>
   (wy1 \<le> wy2 \<and> wx1 \<le> wx2 \<longrightarrow>
     (\<forall>(y1, x1, y2, x2) \<in> set (bbox_clip boxes (wy1, wx1, wy2, wx2)).
        wy1 \<le> y1 \<and> y1 \<le> wy2 \<and> wx1 \<le> x1 \<and> x1 \<le> wx2 \<and>
        wy1 \<le> y2 \<and> y2 \<le> wy2 \<and> wx1 \<le> x2 \<and> x2 \<le> wx2))"
proof -
  have "clip_row (wy1, wx1, wy2, wx2) =
      (\<lambda>(y1, x1, y2, x2). (max (min y1 wy2) wy1, max (min x1 wx2) wx1,
                            max (min y2 wy2) wy1, max (min x2 wx2) wx1))"
    by (rule ext) auto
  then have eq: "bbox_clip boxes (wy1, wx1, wy2, wx2) =
     map (\<lambda>(y1, x1, y2, x2). (max (min y1 wy2) wy1, max (min x1 wx2) wx1,
                              max (min y2 wy2) wy1, max (min x2 wx2) wx1)) boxes"
    by (simp add: bbox_clip_def)
  have cols: "\<forall>r \<in> set (bbox_clip boxes (wy1, wx1, wy2, wx2)). length (columns r) = 4"
    by (auto simp: columns_def)
  have inside: "\<forall>(y1, x1, y2, x2) \<in> set (bbox_clip boxes (wy1, wx1, wy2, wx2)).
        wy1 \<le> y1 \<and> y1 \<le> wy2 \<and> wx1 \<le> x1 \<and> x1 \<le> wx2 \<and>
        wy1 \<le> y2 \<and> y2 \<le> wy2 \<and> wx1 \<le> x2 \<and> x2 \<le> wx2"
    if "wy1 \<le> wy2" "wx1 \<le> wx2"
    using that by (auto simp: bbox_clip_def)
  show ?thesis
    using eq cols inside by (simp add: bbox_clip_def)
qed

theorem C9_bbox_clip_witness:
  "(0::real) \<le> 100 \<and> (0::real) \<le> 200 \<and>
   bbox_clip [(- 5, 10, 50, 250), (120, - 3, 130, 7)] (0, 0, 100, 200) =
     [(0, 10, 50, 200), (100, 0, 100, 7)] \<and>
   list_all (\<lambda>r. length (columns r) = 4)
     (bbox_clip [(- 5, 10, 50, 250), (120, - 3, 130, 7)] (0, 0, 100, 200)) \<and>
   list_all (\<lambda>(y1, x1, y2, x2).
        0 \<le> y1 \<and> y1 \<le> 100 \<and> 0 \<le> x1 \<and> x1 \<le> 200 \<and>
        0 \<le> y2 \<and> y2 \<le> 100 \<and> 0 \<le> x2 \<and> x2 \<le> 200)
     (bbox_clip [(- 5, 10, 50, 250), (120, - 3, 130, 7)] (0, 0, 100, 200))"
  using C9_bbox_clip [of "[(- 5, 10, 50, 250), (120, - 3, 130, 7)]" 0 0 100 200]
  by (simp add: list_all_iff)

section \<open>Facts about the tensor operations\<close>

lemma scatter_update_length [simp]: "length (scatter_update t ids v) = length t"
  unfolding scatter_update_def by (induction ids arbitrary: t) simp_all

lemma scatter_update_nth:
  "i < length t \<Longrightarrow> scatter_update t ids v ! i = (if i \<in> set ids then v else t ! i)"
  unfolding scatter_update_def
proof (induction ids arbitrary: t)
  case Nil
  then show ?case by simp
next
  case (Cons a ids)
  then show ?case by (simp add: nth_list_update)
qed

lemma where_equal_set: "set (where_equal v t) = {i. i < length t \<and> t ! i = v}"
  by (auto simp: where_equal_def)

lemma where_equal_distinct: "distinct (where_equal v t)"
  by (simp add: where_equal_def)

lemma where_equal_sorted: "sorted_wrt (<) (where_equal v t)"
  by (simp add: where_equal_def sorted_wrt_filter)

lemma where_equal_scatter_other:
  assumes "set ids \<subseteq> set (where_equal w t)" "u \<noteq> w" "u \<noteq> v"
  shows "where_equal u (scatter_update t ids v) = where_equal u t"
  unfolding where_equal_def using assms
  by (auto simp: scatter_update_nth where_equal_set intro!: filter_cong)

lemma where_equal_scatter_set:
  assumes "w \<noteq> v"
  shows "set (where_equal w (scatter_update t ids v)) = set (where_equal w t) - set ids"
  using assms by (auto simp: where_equal_set scatter_update_nth)

lemma where_equal_scatter_length:
  assumes "w \<noteq> v" "distinct ids" "set ids \<subseteq> set (where_equal w t)"
  shows "length (where_equal w (scatter_update t ids v)) = length (where_equal w t) - length ids"
proof -
  have "length (where_equal w (scatter_update t ids v)) = card (set (where_equal w (scatter_update t ids v)))"
    by (simp add: distinct_card where_equal_distinct)
  also have "\<dots> = card (set (where_equal w t) - set ids)"
    by (simp add: where_equal_scatter_set [OF assms(1)])
  also have "\<dots> = card (set (where_equal w t)) - card (set ids)"
    using assms(3) by (simp add: card_Diff_subset)
  also have "\<dots> = length (where_equal w t) - length ids"
    by (simp add: distinct_card where_equal_distinct assms(2))
  finally show ?thesis .
qed

lemma shuffle_take:
  assumes "is_shuffle sh" "distinct xs"
  shows "distinct (take k (sh xs))" "set (take k (sh xs)) \<subseteq> set xs" "length (take k (sh xs)) = min k (length xs)"
proof -
  have m: "mset (sh xs) = mset xs" using assms(1) by (simp add: is_shuffle_def)
  have d: "distinct (sh xs)" using m assms(2) by (metis mset_eq_imp_distinct_iff)
  show "distinct (take k (sh xs))" using d by simp
  have "set (sh xs) = set xs" using m by (metis mset_eq_setD)
  then show "set (take k (sh xs)) \<subseteq> set xs" using set_take_subset by fastforce
  have "length (sh xs) = length xs" using m by (metis mset_eq_length)
  then show "length (take k (sh xs)) = min k (length xs)" by simp
qed

lemma count_positive: "sum_list (map (\<lambda>m. if m = (1::int) then 1 else 0) t) = int (length (where_equal 1 t))"
proof -
  have "sum_list (map (\<lambda>m. if m = (1::int) then 1 else (0::int)) t) = int (length (filter (\<lambda>m. m = 1) t))"
    by (induction t) simp_all
  also have "length (filter (\<lambda>m. m = 1) t) = card {i. i < length t \<and> t ! i = 1}"
    by (rule length_filter_conv_card)
  also have "\<dots> = length (where_equal 1 t)"
    by (simp add: distinct_card [OF where_equal_distinct, symmetric] where_equal_set)
  finally show ?thesis .
qed

lemma argmax_vec_less: "xs \<noteq> [] \<Longrightarrow> argmax_vec xs < length xs"
  by (induction xs rule: argmax_vec.induct) (auto simp: Let_def)

lemma argmax_vec_max: "i < length xs \<Longrightarrow> xs ! i \<le> xs ! argmax_vec xs"
proof (induction xs arbitrary: i rule: argmax_vec.induct)
  case 1
  then show ?case by simp
next
  case (2 x)
  then show ?case by simp
next
  case (3 x y ys)
  show ?case
  proof (cases i)
    case 0
    then show ?thesis by (simp add: Let_def)
  next
    case (Suc k)
    with 3 have "(y # ys) ! k \<le> (y # ys) ! argmax_vec (y # ys)" by simp
    with Suc show ?thesis by (auto simp: Let_def)
  qed
qed

lemma argmax_vec_first: "i < argmax_vec xs \<Longrightarrow> xs ! i < xs ! argmax_vec xs"
proof (induction xs arbitrary: i rule: argmax_vec.induct)
  case 1
  then show ?case by simp
next
  case (2 x)
  then show ?case by simp
next
  case (3 x y ys)
  show ?case
  proof (cases "x < (y # ys) ! argmax_vec (y # ys)")
    case False
    with 3(2) show ?thesis by (simp add: Let_def)
  next
    case True
    then have a: "argmax_vec (x # y # ys) = Suc (argmax_vec (y # ys))" by (simp add: Let_def)
    show ?thesis
    proof (cases i)
      case 0
      with True a show ?thesis by simp
    next
      case (Suc k)
      with 3(2) a have "k < argmax_vec (y # ys)" by simp
      then have "(y # ys) ! k < (y # ys) ! argmax_vec (y # ys)" by (rule 3(1))
      with Suc a show ?thesis by simp
    qed
  qed
qed

lemma tf_where_Inr:
  assumes "length c = n" "length x = n" "length y = n"
  shows "tf_where c x y = Inr (map (\<lambda>i. if c ! i then x ! i else y ! i) [0..<n])"
proof -
  have "map (\<lambda>(b, u, v). if b then u else v) (zip c (zip x y)) =
        map (\<lambda>i. if c ! i then x ! i else y ! i) [0..<n]"
    using assms by (intro nth_equalityI) simp_all
  then show ?thesis using assms by (simp add: tf_where_def)
qed

lemma compute_overlaps_length [simp]: "length (compute_overlaps a g) = length a"
  by (simp add: compute_overlaps_def)

lemma compute_overlaps_row [simp]: "i < length a \<Longrightarrow> length (compute_overlaps a g ! i) = length g"
  by (simp add: compute_overlaps_def)

lemma match_anchors_Inl:
  assumes "anchors = [] \<or> gt_boxes = [] \<or> length valid_flags \<noteq> length anchors"
  shows "match_anchors A self anchors valid_flags gt_boxes = Inl InvalidArgumentError"
proof (cases "gt_boxes = []")
  case True
  then show ?thesis by (simp add: match_anchors_def tf_argmax_axis1_def err_bind_def)
next
  case gt: False
  show ?thesis
  proof (cases "length valid_flags = length anchors")
    case False
    then show ?thesis
      using gt by (simp add: match_anchors_def tf_argmax_axis1_def err_bind_def tf_where_def Let_def)
  next
    case True
    with assms gt have "anchors = []" by simp
    then show ?thesis
      using gt True
      by (simp add: match_anchors_def tf_argmax_axis1_def tf_argmax_axis0_def err_bind_def
          tf_where_def Let_def compute_overlaps_def)
  qed
qed

lemma match_anchors_Inr:
  assumes "anchors \<noteq> []" "gt_boxes \<noteq> []" "length valid_flags = length anchors"
  shows "match_anchors A self anchors valid_flags gt_boxes =
    Inr (scatter_update
           (map (\<lambda>i. if fge (reduce_max (compute_overlaps anchors gt_boxes ! i)) (rnd A (pos_iou_thr self)) then 1
                     else if valid_flags ! i = 1
                          then (if flt (reduce_max (compute_overlaps anchors gt_boxes ! i)) (rnd A (neg_iou_thr self))
                                then - 1 else 0)
                          else 0) [0..<length anchors])
           (map (\<lambda>j. argmax_vec (map (\<lambda>row. row ! j) (compute_overlaps anchors gt_boxes)))
              [0..<length gt_boxes]) 1,
         map argmax_vec (compute_overlaps anchors gt_boxes),
         map (\<lambda>j. argmax_vec (map (\<lambda>row. row ! j) (compute_overlaps anchors gt_boxes)))
              [0..<length gt_boxes])"
proof -
  let ?n = "length anchors"
  let ?ov = "compute_overlaps anchors gt_boxes"
  let ?mx = "map reduce_max ?ov"
  have ne: "?ov \<noteq> []" using assms(1) by (simp add: compute_overlaps_def)
  have w1: "tf_where (map (\<lambda>v. flt v (rnd A (neg_iou_thr self))) ?mx) (replicate ?n (- 1)) (replicate ?n (0::int)) =
     Inr (map (\<lambda>i. if flt (reduce_max (?ov ! i)) (rnd A (neg_iou_thr self)) then - 1 else 0) [0..<?n])"
    by (subst tf_where_Inr [where n = ?n]) simp_all
  have w2: "tf_where (map (\<lambda>f. f = 1) valid_flags)
       (map (\<lambda>i. if flt (reduce_max (?ov ! i)) (rnd A (neg_iou_thr self)) then - 1 else 0) [0..<?n])
       (replicate ?n (0::int)) =
     Inr (map (\<lambda>i. if valid_flags ! i = 1
                    then (if flt (reduce_max (?ov ! i)) (rnd A (neg_iou_thr self)) then - 1 else 0)
                    else 0) [0..<?n])"
    using assms(3) by (subst tf_where_Inr [where n = ?n]) simp_all
  have w3: "tf_where (map (\<lambda>v. fge v (rnd A (pos_iou_thr self))) ?mx) (replicate ?n (1::int))
       (map (\<lambda>i. if valid_flags ! i = 1
                    then (if flt (reduce_max (?ov ! i)) (rnd A (neg_iou_thr self)) then - 1 else 0)
                    else 0) [0..<?n]) =
     Inr (map (\<lambda>i. if fge (reduce_max (?ov ! i)) (rnd A (pos_iou_thr self)) then 1
                     else if valid_flags ! i = 1
                          then (if flt (reduce_max (?ov ! i)) (rnd A (neg_iou_thr self)) then - 1 else 0)
                          else 0) [0..<?n])"
    by (subst tf_where_Inr [where n = ?n]) simp_all
  show ?thesis
    unfolding match_anchors_def Let_def
    using assms(2) ne
    by (simp add: tf_argmax_axis1_def tf_argmax_axis0_def err_bind_def w1 w2 w3 del: map_map)
qed

section \<open>Facts about the target builder\<close>

lemma subsample_length [simp]: "length (subsample self sh t) = length t"
  by (simp add: subsample_def Let_def)

lemma subsample_nth:
  assumes "i < length t"
  shows "subsample self sh t ! i = t ! i \<or> subsample self sh t ! i = 0"
  using assms by (simp add: subsample_def Let_def scatter_update_nth)

lemma where_equal_count: "length (where_equal v t) = count_list t v"
proof -
  have "length (where_equal v t) = card {i. i < length t \<and> t ! i = v}"
    by (simp add: distinct_card [OF where_equal_distinct, symmetric] where_equal_set)
  also have "\<dots> = length (filter (\<lambda>m. m = v) t)"
    by (simp add: length_filter_conv_card)
  also have "\<dots> = count_list t v"
    by (induction t) simp_all
  finally show ?thesis .
qed

lemma drop_excess:
  assumes "is_shuffle sh" "w \<noteq> 0" "k \<le> length (where_equal w t)"
  shows "length (where_equal w (scatter_update t (take k (sh (where_equal w t))) 0)) =
         length (where_equal w t) - k"
    and "u \<noteq> w \<Longrightarrow> u \<noteq> 0 \<Longrightarrow>
         where_equal u (scatter_update t (take k (sh (where_equal w t))) 0) = where_equal u t"
proof -
  note st = shuffle_take [OF assms(1) where_equal_distinct, of k w t]
  have "length (where_equal w (scatter_update t (take k (sh (where_equal w t))) 0)) =
        length (where_equal w t) - length (take k (sh (where_equal w t)))"
    by (rule where_equal_scatter_length [OF assms(2) st(1) st(2)])
  also have "\<dots> = length (where_equal w t) - k"
    unfolding st(3) using assms(3) by simp
  finally show "length (where_equal w (scatter_update t (take k (sh (where_equal w t))) 0)) =
         length (where_equal w t) - k" .
  show "where_equal u (scatter_update t (take k (sh (where_equal w t))) 0) = where_equal u t"
    if "u \<noteq> w" "u \<noteq> 0"
    by (rule where_equal_scatter_other [OF st(2) that])
qed

lemma subsample_bounds:
  assumes sh: "is_shuffle sh" and d: "0 \<le> num_rpn_deltas self"
  shows "int (length (where_equal 1 (subsample self sh t))) \<le> num_rpn_deltas self div 2"
    and "int (length (where_equal 1 (subsample self sh t))) +
         int (length (where_equal (- 1) (subsample self sh t))) \<le> num_rpn_deltas self"
proof -
  let ?D = "num_rpn_deltas self"
  define extra where "extra = int (length (where_equal 1 t)) - ?D div 2"
  define t1 where "t1 =
    (if extra > 0 then scatter_update t (take (nat extra) (sh (where_equal 1 t))) 0 else t)"
  define extra2 where "extra2 =
    int (length (where_equal (- 1) t1)) - (?D - int (length (where_equal 1 t1)))"
  have sub: "subsample self sh t =
    (if extra2 > 0 then scatter_update t1 (take (nat extra2) (sh (where_equal (- 1) t1))) 0 else t1)"
    by (simp add: subsample_def Let_def extra_def t1_def extra2_def count_positive)
  have half: "0 \<le> ?D div 2" using d by simp
  have p1: "int (length (where_equal 1 t1)) \<le> ?D div 2"
  proof (cases "extra > 0")
    case False
    then show ?thesis by (simp add: t1_def extra_def)
  next
    case True
    have k: "nat extra \<le> length (where_equal 1 t)" using half by (simp add: extra_def)
    have "length (where_equal 1 t1) = length (where_equal 1 t) - nat extra"
      using True drop_excess(1) [OF sh _ k] by (simp add: t1_def)
    then show ?thesis using True half by (simp add: extra_def)
  qed
  have fin: "length (where_equal 1 (subsample self sh t)) = length (where_equal 1 t1) \<and>
      int (length (where_equal 1 t1)) + int (length (where_equal (- 1) (subsample self sh t))) \<le> ?D"
  proof (cases "extra2 > 0")
    case False
    then show ?thesis by (simp add: sub extra2_def)
  next
    case True
    have "?D div 2 \<le> ?D" using d by simp
    then have k: "nat extra2 \<le> length (where_equal (- 1) t1)"
      using p1 by (simp add: extra2_def)
    have a: "length (where_equal (- 1) (subsample self sh t)) = length (where_equal (- 1) t1) - nat extra2"
      using True drop_excess(1) [OF sh _ k] by (simp add: sub)
    have b: "where_equal 1 (subsample self sh t) = where_equal 1 t1"
      using True drop_excess(2) [OF sh _ k, of 1] by (simp add: sub)
    show ?thesis using a b True k by (simp add: extra2_def)
  qed
  show "int (length (where_equal 1 (subsample self sh t))) \<le> ?D div 2"
    using fin p1 by simp
  show "int (length (where_equal 1 (subsample self sh t))) +
         int (length (where_equal (- 1) (subsample self sh t))) \<le> ?D"
    using fin by simp
qed

lemma pad_deltas_eq:
  "pad_deltas A self anchors gt_boxes anchor_iou_argmax target_matchs =
     map (\<lambda>i. bbox2delta A (anchors ! i) (gt_boxes ! (anchor_iou_argmax ! i))
                 (target_means self) (target_stds self)) (where_equal 1 target_matchs) @
     replicate (nat (num_rpn_deltas self - int (length (where_equal 1 target_matchs)))) zero_row"
proof -
  have "map (\<lambda>(b, g). bbox2delta A b g (target_means self) (target_stds self))
          (zip (map ((!) anchors) ids) (map ((!) gt_boxes) (map ((!) anchor_iou_argmax) ids))) =
        map (\<lambda>i. bbox2delta A (anchors ! i) (gt_boxes ! (anchor_iou_argmax ! i))
                 (target_means self) (target_stds self)) ids" for ids
    by (induction ids) simp_all
  then show ?thesis
    by (simp add: pad_deltas_def Let_def gather_def max_def)
qed

lemma build_single_target_Inr:
  assumes "build_single_target A self sh anchors valid_flags gt_boxes gt_class_ids = Inr (tm, td)"
  obtains tm0 aa ga where
    "match_anchors A self anchors valid_flags (fst (trim_zeros gt_boxes)) = Inr (tm0, aa, ga)"
    "tm = subsample self sh tm0"
    "td = pad_deltas A self anchors (fst (trim_zeros gt_boxes)) aa tm"
  using assms
  by (auto simp: build_single_target_def Let_def err_bind_def split: sum.splits)

lemma match_anchors_InrD:
  assumes "match_anchors A self anchors valid_flags gt_boxes = Inr (tm0, aa, ga)"
  shows "anchors \<noteq> []" "gt_boxes \<noteq> []" "length valid_flags = length anchors"
    and "length tm0 = length anchors"
    and "aa = map argmax_vec (compute_overlaps anchors gt_boxes)"
    and "ga = map (\<lambda>j. argmax_vec (map (\<lambda>row. row ! j) (compute_overlaps anchors gt_boxes)))
              [0..<length gt_boxes]"
    and "\<And>i. i < length anchors \<Longrightarrow> tm0 ! i =
           (if i \<in> set ga then 1
            else if fge (reduce_max (compute_overlaps anchors gt_boxes ! i)) (rnd A (pos_iou_thr self)) then 1
            else if valid_flags ! i = 1
                 then (if flt (reduce_max (compute_overlaps anchors gt_boxes ! i)) (rnd A (neg_iou_thr self))
                       then - 1 else 0)
                 else 0)"
proof -
  have ok: "\<not> (anchors = [] \<or> gt_boxes = [] \<or> length valid_flags \<noteq> length anchors)"
    using assms match_anchors_Inl [of anchors gt_boxes valid_flags A self] by auto
  then show a: "anchors \<noteq> []" and g: "gt_boxes \<noteq> []" and v: "length valid_flags = length anchors"
    by simp_all
  note r = assms [unfolded match_anchors_Inr [OF a g v]]
  from r show "length tm0 = length anchors" by auto
  from r show "aa = map argmax_vec (compute_overlaps anchors gt_boxes)" by simp
  from r show ga: "ga = map (\<lambda>j. argmax_vec (map (\<lambda>row. row ! j) (compute_overlaps anchors gt_boxes)))
              [0..<length gt_boxes]" by simp
  fix i assume "i < length anchors"
  with r ga show "tm0 ! i =
           (if i \<in> set ga then 1
            else if fge (reduce_max (compute_overlaps anchors gt_boxes ! i)) (rnd A (pos_iou_thr self)) then 1
            else if valid_flags ! i = 1
                 then (if flt (reduce_max (compute_overlaps anchors gt_boxes ! i)) (rnd A (neg_iou_thr self))
                       then - 1 else 0)
                 else 0)"
    by (auto simp: scatter_update_nth)
qed

lemma init_fields [simp]:
  "num_rpn_deltas (AnchorTarget_init means stds) = 256"
  "pos_iou_thr (AnchorTarget_init means stds) = 0.7"
  "neg_iou_thr (AnchorTarget_init means stds) = 0.3"
  "target_means (AnchorTarget_init means stds) = means"
  "target_stds (AnchorTarget_init means stds) = stds"
  by (simp_all add: AnchorTarget_init_def)

lemma build_bounds:
  assumes "is_shuffle random_shuffle"
    and "build_single_target A (AnchorTarget_init means stds) random_shuffle anchors valid_flags
           gt_boxes gt_class_ids = Inr (target_matchs, target_deltas)"
  shows "length (where_equal 1 target_matchs) \<le> 128"
    and "length (where_equal 1 target_matchs) + length (where_equal (- 1) target_matchs) \<le> 256"
proof -
  obtain tm0 aa ga where
    "match_anchors A (AnchorTarget_init means stds) anchors valid_flags (fst (trim_zeros gt_boxes)) =
       Inr (tm0, aa, ga)"
    and tm: "target_matchs = subsample (AnchorTarget_init means stds) random_shuffle tm0"
    and "target_deltas =
       pad_deltas A (AnchorTarget_init means stds) anchors (fst (trim_zeros gt_boxes)) aa target_matchs"
    by (rule build_single_target_Inr [OF assms(2)])
  have d: "0 \<le> num_rpn_deltas (AnchorTarget_init means stds)" by simp
  note b = subsample_bounds [OF assms(1) d, of tm0, folded tm]
  from b(1) show "length (where_equal 1 target_matchs) \<le> 128" by simp
  from b(2) show "length (where_equal 1 target_matchs) + length (where_equal (- 1) target_matchs) \<le> 256"
    by simp
qed

section \<open>Inputs, evaluated\<close>

lemma pair_match:
  assumes r: "rnd A = float32"
  shows "match_anchors A (AnchorTarget_init means stds) [(0, 0, 10, 10), (0, 0, 10, 9)] [1, 0]
     [(0, 0, 10, 10)] = Inr ([1, 1], [0, 0], [0])"
  by (simp add: match_anchors_def Let_def compute_overlaps_def tf_argmax_axis1_def
      tf_argmax_axis0_def err_bind_def tf_where_def scatter_update_def r
      float32_pos_iou_thr float32_neg_iou_thr)

lemma pair_where_equal: "where_equal 1 [1, 1] = [0, 1]" "where_equal (- 1) [1, 1] = []"
  by (simp_all add: where_equal_def)

lemma pair_subsample: "subsample (AnchorTarget_init means stds) sh [1, 1] = [1, 1]"
  by (simp add: subsample_def pair_where_equal Let_def)

lemma pair_pad_deltas: "pad_deltas A (AnchorTarget_init means stds) [(0, 0, 10, 10), (0, 0, 10, 9)] [(0, 0, 10, 10)] [0, 0] [1, 1] = 
  [bbox2delta A (0, 0, 10, 10) (0, 0, 10, 10) means stds,
                bbox2delta A (0, 0, 10, 9) (0, 0, 10, 10) means stds] @ replicate 254 zero_row"
  by (simp add: pad_deltas_eq pair_where_equal del: bbox2delta.simps)

lemma pair_build:
  assumes r: "rnd A = float32"
  shows "build_single_target A (AnchorTarget_init means stds) id [(0, 0, 10, 10), (0, 0, 10, 9)] [1, 0]
     [(0, 0, 10, 10)] [1] =
   Inr ([1, 1], [bbox2delta A (0, 0, 10, 10) (0, 0, 10, 10) means stds,
                bbox2delta A (0, 0, 10, 9) (0, 0, 10, 10) means stds] @ replicate 254 zero_row)"
  by (simp add: build_single_target_def err_bind_def trim_zeros_def pair_match [OF r]
      pair_subsample pair_pad_deltas del: bbox2delta.simps)

lemma forced_match:
  assumes r: "rnd A = float32"
  shows "match_anchors A (AnchorTarget_init means stds) [(0, 0, 10, 10)] [0]
     (fst (trim_zeros [(0, 0, 10, 100), (0, 0, 0, 0)])) = Inr ([1], [0], [0])"
  by (simp add: match_anchors_def Let_def compute_overlaps_def tf_argmax_axis1_def
      tf_argmax_axis0_def err_bind_def tf_where_def scatter_update_def trim_zeros_def r
      float32_pos_iou_thr float32_neg_iou_thr)

lemma trim_one [simp]: "fst (trim_zeros [(0, 0, 10, 10)]) = [(0, 0, 10, 10)]"
  by (simp add: trim_zeros_def)

lemma argmax_vec_Cons:
  "xs \<noteq> [] \<Longrightarrow> argmax_vec (x # xs) = (if x < xs ! argmax_vec xs then Suc (argmax_vec xs) else 0)"
  by (cases xs) (simp_all add: Let_def)

lemma argmax_vec_replicate [simp]: "argmax_vec (replicate n x) = 0"
proof (induction n)
  case 0
  then show ?case by simp
next
  case (Suc n)
  then show ?case by (cases n) (simp_all add: Let_def)
qed

lemma where_equal_replicate: "where_equal v (replicate n v) = [0..<n]"
  by (simp add: where_equal_def filter_id_conv)

lemma list_update_replicate_same [simp]: "(replicate n x)[i := x] = replicate n x"
  by (induction n arbitrary: i) (simp_all split: nat.split)

lemma replicate_129: "replicate 129 x = x # replicate 128 x"
  by (simp add: replicate_Suc [symmetric] del: replicate_Suc)

lemma where_equal_absent: "v \<notin> set t \<Longrightarrow> where_equal v t = []"
  by (auto simp: where_equal_def filter_empty_conv)

lemma crowded_overlaps:
  "compute_overlaps ((100, 100, 110, 120) # replicate 128 (0, 0, 10, 10))
     [(0, 0, 10, 10), (100, 100, 110, 110)] = [0, 1 / 2] # replicate 128 [1, 0]"
  by (simp add: compute_overlaps_def)

lemma crowded_match:
  assumes r: "rnd A = float32"
  shows "match_anchors A (AnchorTarget_init means stds) ((100, 100, 110, 120) # replicate 128 (0, 0, 10, 10))
     (replicate 129 1) [(0, 0, 10, 10), (100, 100, 110, 110)] =
   Inr (replicate 129 1, 1 # replicate 128 0, [1, 0])"
proof -
  have n: "length ((100, 100, 110, 120) # replicate 128 ((0::real), (0::real), (10::real), (10::real))) = 129"
    by simp
  have u: "[0..<length [((0::real), (0::real), (10::real), (10::real)), (100, 100, 110, 110)]] = [0, 1]"
    by (simp add: upt_rec)
  have w1: "tf_where (False # replicate 128 False) (replicate 129 (- 1)) (replicate 129 (0::int)) =
      Inr (replicate 129 0)"
    by (simp add: tf_where_def replicate_129)
  have w2: "tf_where (True # replicate 128 True) (replicate 129 0) (replicate 129 (0::int)) =
      Inr (replicate 129 0)"
    by (simp add: tf_where_def replicate_129)
  have w3: "tf_where (False # replicate 128 True) (1 # replicate 128 1) (replicate 129 (0::int)) =
      Inr (0 # replicate 128 1)"
    by (simp add: tf_where_def replicate_129)
  have sc: "scatter_update (0 # replicate 128 1) [Suc 0, 0] 1 = 1 # replicate 128 1"
    by (simp add: scatter_update_def)
  show ?thesis
    unfolding match_anchors_def Let_def n crowded_overlaps u
    by (simp add: tf_argmax_axis1_def tf_argmax_axis0_def err_bind_def w1 w2 w3 sc
        argmax_vec_Cons replicate_129 [of "1::int"] r float32_pos_iou_thr float32_neg_iou_thr)
qed

lemma trim_two [simp]:
  "fst (trim_zeros [(0, 0, 10, 10), (100, 100, 110, 110)]) = [(0, 0, 10, 10), (100, 100, 110, 110)]"
  by (simp add: trim_zeros_def)

lemma crowded_subsample:
  "subsample (AnchorTarget_init means stds) id (replicate 129 1) = 0 # replicate 128 1"
proof -
  have t: "take (Suc 0) [0..<129] = [0]" by (simp add: take_upt)
  have sc: "scatter_update (replicate 129 1) [0] 0 = 0 # replicate 128 1"
    by (simp add: scatter_update_def replicate_129)
  have e: "scatter_update (0 # replicate 128 1) [] 0 = 0 # replicate 128 1"
    by (simp add: scatter_update_def)
  have ab: "where_equal (- 1) (0 # replicate 128 1) = []"
    by (rule where_equal_absent) simp
  show ?thesis
    by (simp add: subsample_def Let_def where_equal_replicate t sc ab e)
qed

lemma crowded_build:
  assumes r: "rnd A = float32"
  shows "build_single_target A (AnchorTarget_init means stds) id
     ((100, 100, 110, 120) # replicate 128 (0, 0, 10, 10)) (replicate 129 1)
     [(0, 0, 10, 10), (100, 100, 110, 110)] [1, 1] =
   Inr (0 # replicate 128 1,
        pad_deltas A (AnchorTarget_init means stds) ((100, 100, 110, 120) # replicate 128 (0, 0, 10, 10))
          [(0, 0, 10, 10), (100, 100, 110, 110)] (1 # replicate 128 0) (0 # replicate 128 1))"
  unfolding build_single_target_def Let_def trim_two crowded_match [OF r]
  by (simp add: err_bind_def crowded_subsample)

lemma is_shuffle_id: "is_shuffle id"
  by (simp add: is_shuffle_def)

text \<open>One anchor on each of 129 ground-truth boxes that do not touch each other.\<close>

lemma iou_row_of_boxes:
  "iou (0, 20 * real i, 10, 20 * real i + 10) (0, 20 * real j, 10, 20 * real j + 10) =
     (if i = j then 1 else 0)"
proof -
  consider "i < j" | "i = j" | "j < i" by linarith
  then show ?thesis
  proof cases
    case 1
    then have "real i + 1 \<le> real j" by linarith
    then show ?thesis using 1 by (simp add: Let_def min_def max_def)
  next
    case 2
    then show ?thesis by (simp add: Let_def)
  next
    case 3
    then have "real j + 1 \<le> real i" by linarith
    then show ?thesis using 3 by (simp add: Let_def min_def max_def)
  qed
qed

lemma argmax_vec_unit:
  assumes "j < length xs" "xs ! j = 1" "\<And>i. i < length xs \<Longrightarrow> i \<noteq> j \<Longrightarrow> xs ! i = 0"
  shows "argmax_vec xs = j"
proof (rule ccontr)
  assume n: "argmax_vec xs \<noteq> j"
  have ne: "xs \<noteq> []" using assms(1) by auto
  have "xs ! j \<le> xs ! argmax_vec xs" by (rule argmax_vec_max [OF assms(1)])
  moreover have "xs ! argmax_vec xs = 0" using assms(3) [OF argmax_vec_less [OF ne] n] .
  ultimately show False using assms(2) by simp
qed

lemma diagonal_match:
  assumes "0 < n"
  shows "match_anchors A (AnchorTarget_init means stds)
     (map (\<lambda>k. (0, 20 * real k, 10, 20 * real k + 10)) [0..<n]) (replicate n 1)
     (map (\<lambda>k. (0, 20 * real k, 10, 20 * real k + 10)) [0..<n]) =
   Inr (replicate n 1, [0..<n], [0..<n])"
proof -
  let ?b = "map (\<lambda>k. (0, 20 * real k, 10, 20 * real k + 10)) [0..<n]"
  let ?ov = "compute_overlaps ?b ?b"
  have ov: "?ov ! i ! j = (if i = j then 1 else 0)" if "i < n" "j < n" for i j
    using that by (simp add: compute_overlaps_def iou_row_of_boxes del: iou.simps)
  have lens: "length ?ov = n" "\<And>i. i < n \<Longrightarrow> length (?ov ! i) = n"
    by (simp_all add: compute_overlaps_def)
  have ne: "?b \<noteq> []" using assms by simp
  have col: "argmax_vec (map (\<lambda>row. row ! j) ?ov) = j" if "j < n" for j
    by (rule argmax_vec_unit) (use that lens ov in simp_all)
  have row: "argmax_vec (?ov ! i) = i" if "i < n" for i
    by (rule argmax_vec_unit) (use that lens ov in simp_all)
  have ga: "map (\<lambda>j. argmax_vec (map (\<lambda>row. row ! j) ?ov)) [0..<length ?b] = [0..<n]"
    by (rule nth_equalityI) (simp_all add: col)
  have aa: "map argmax_vec ?ov = [0..<n]"
    by (rule nth_equalityI) (simp_all add: lens row)
  have tm: "scatter_update t [0..<n] 1 = replicate n 1" if "length t = n" for t
    by (rule nth_equalityI) (simp_all add: that scatter_update_nth)
  have len: "length (replicate n (1::int)) = length ?b" by simp
  show ?thesis
    unfolding match_anchors_Inr [OF ne ne len] ga aa
    by (simp add: tm del: map_map)
qed

lemma diagonal_trim:
  "fst (trim_zeros (map (\<lambda>k. (0, 20 * real k, 10, 20 * real k + 10)) [0..<n])) =
   map (\<lambda>k. (0, 20 * real k, 10, 20 * real k + 10)) [0..<n]"
  by (simp add: trim_zeros_def filter_id_conv)

lemma diagonal_build:
  "build_single_target A (AnchorTarget_init means stds) id
     (map (\<lambda>k. (0, 20 * real k, 10, 20 * real k + 10)) [0..<129]) (replicate 129 1)
     (map (\<lambda>k. (0, 20 * real k, 10, 20 * real k + 10)) [0..<129]) (replicate 129 1) =
   Inr (0 # replicate 128 1,
        pad_deltas A (AnchorTarget_init means stds)
          (map (\<lambda>k. (0, 20 * real k, 10, 20 * real k + 10)) [0..<129])
          (map (\<lambda>k. (0, 20 * real k, 10, 20 * real k + 10)) [0..<129])
          [0..<129] (0 # replicate 128 1))"
proof -
  have m: "match_anchors A (AnchorTarget_init means stds)
     (map (\<lambda>k. (0, 20 * real k, 10, 20 * real k + 10)) [0..<129]) (replicate 129 1)
     (map (\<lambda>k. (0, 20 * real k, 10, 20 * real k + 10)) [0..<129]) =
     Inr (replicate 129 1, [0..<129], [0..<129])"
    by (rule diagonal_match) simp
  show ?thesis
    unfolding build_single_target_def Let_def diagonal_trim m
    by (simp add: err_bind_def crowded_subsample)
qed

text \<open>
  An anchor whose overlap is the float32 value of the positive threshold, below 0.7.
\<close>

lemma float32_rounded_rnd [simp]: "rnd float32_rounded = float32"
  by (simp add: float32_rounded_def float32_arith_def)

lemma edge_overlaps:
  "compute_overlaps [(0, 0, 1, 1), (0, 0, 1, 11744051 / 16777216)] [(0, 0, 1, 1)] =
     [1] # [11744051 / 16777216] # []"
  by (simp add: compute_overlaps_def)

lemma edge_match:
  assumes r: "rnd A = float32"
  shows "match_anchors A (AnchorTarget_init means stds)
     [(0, 0, 1, 1), (0, 0, 1, 11744051 / 16777216)] [1, 0] [(0, 0, 1, 1)] =
     Inr ([1, 1], [0, 0], [0])"
  unfolding match_anchors_def Let_def edge_overlaps
  by (simp add: tf_argmax_axis1_def tf_argmax_axis0_def err_bind_def tf_where_def
      scatter_update_def r float32_pos_iou_thr float32_neg_iou_thr)

lemma edge_pad_deltas:
  "pad_deltas A (AnchorTarget_init means stds)
     [(0, 0, 1, 1), (0, 0, 1, 11744051 / 16777216)] [(0, 0, 1, 1)] [0, 0] [1, 1] =
   [bbox2delta A (0, 0, 1, 1) (0, 0, 1, 1) means stds,
    bbox2delta A (0, 0, 1, 11744051 / 16777216) (0, 0, 1, 1) means stds] @ replicate 254 zero_row"
  by (simp add: pad_deltas_eq pair_where_equal del: bbox2delta.simps)

lemma edge_build:
  assumes r: "rnd A = float32"
  shows "build_single_target A (AnchorTarget_init means stds) id
     [(0, 0, 1, 1), (0, 0, 1, 11744051 / 16777216)] [1, 0] [(0, 0, 1, 1)] [1] =
   Inr ([1, 1], [bbox2delta A (0, 0, 1, 1) (0, 0, 1, 1) means stds,
                bbox2delta A (0, 0, 1, 11744051 / 16777216) (0, 0, 1, 1) means stds] @
               replicate 254 zero_row)"
  by (simp add: build_single_target_def err_bind_def trim_zeros_def edge_match [OF r]
      pair_subsample edge_pad_deltas del: bbox2delta.simps)

text \<open>Two anchors and two ground-truth boxes, each anchor on the other box's index.\<close>

lemma swapped_trim [simp]:
  "fst (trim_zeros [(100, 100, 110, 110), (0, 0, 10, 10)]) = [(100, 100, 110, 110), (0, 0, 10, 10)]"
  by (simp add: trim_zeros_def)

lemma swapped_overlaps:
  "compute_overlaps [(0, 0, 10, 9), (100, 100, 110, 110)] [(100, 100, 110, 110), (0, 0, 10, 10)] =
     [0, 9 / 10] # [1, 0] # []"
  by (simp add: compute_overlaps_def)

lemma swapped_match:
  assumes r: "rnd A = float32"
  shows "match_anchors A (AnchorTarget_init means stds)
     [(0, 0, 10, 9), (100, 100, 110, 110)] [1, 1] [(100, 100, 110, 110), (0, 0, 10, 10)] =
     Inr ([1, 1], [1, 0], [1, 0])"
  unfolding match_anchors_def Let_def swapped_overlaps
  by (simp add: tf_argmax_axis1_def tf_argmax_axis0_def err_bind_def tf_where_def
      scatter_update_def r float32_pos_iou_thr float32_neg_iou_thr upt_rec)

lemma swapped_pad_deltas:
  "pad_deltas A (AnchorTarget_init means stds)
     [(0, 0, 10, 9), (100, 100, 110, 110)] [(100, 100, 110, 110), (0, 0, 10, 10)] [1, 0] [1, 1] =
   [bbox2delta A (0, 0, 10, 9) (0, 0, 10, 10) means stds,
    bbox2delta A (100, 100, 110, 110) (100, 100, 110, 110) means stds] @ replicate 254 zero_row"
  by (simp add: pad_deltas_eq pair_where_equal del: bbox2delta.simps)

lemma swapped_build:
  assumes r: "rnd A = float32"
  shows "build_single_target A (AnchorTarget_init means stds) id
     [(0, 0, 10, 9), (100, 100, 110, 110)] [1, 1] [(100, 100, 110, 110), (0, 0, 10, 10)] [1, 1] =
   Inr ([1, 1], [bbox2delta A (0, 0, 10, 9) (0, 0, 10, 10) means stds,
                bbox2delta A (100, 100, 110, 110) (100, 100, 110, 110) means stds] @
               replicate 254 zero_row)"
  unfolding build_single_target_def Let_def swapped_trim swapped_match [OF r]
  by (simp only: err_bind_def sum.case prod.case pair_subsample swapped_pad_deltas)

lemma fge_pos_iou_thr: "fge v (Fin 0.7) \<Longrightarrow> fge v (float32 0.7)"
  by (cases v) (simp_all add: float32_pos_iou_thr)

section \<open>The claims about the target builder\<close>

text \<open>
  C2 on the code. When every ground-truth row is zero padding, the trimmed ground truth
  has no row, the overlap matrix has no column, and \<open>tf.argmax(overlaps, axis=1)\<close> at
  line 100 raises: the call returns no labels and no delta rows. The second theorem
  evaluates the two-anchor scenario of the spec.
\<close>

theorem C2_empty_ground_truth_raises:
  assumes "fst (trim_zeros gt_boxes) = []"
  shows "build_single_target A self random_shuffle anchors valid_flags gt_boxes gt_class_ids =
         Inl InvalidArgumentError"
  using assms match_anchors_Inl [of anchors "[]" valid_flags A self]
  by (simp add: build_single_target_def Let_def err_bind_def)

theorem C2_empty_ground_truth_raises_witness:
  "fst (trim_zeros [(0, 0, 0, 0)]) = [] \<and>
   build_single_target float32_rounded (AnchorTarget_init (0, 0, 0, 0) (0.1, 0.1, 0.2, 0.2)) id
     [(0, 0, 10, 10), (100, 100, 110, 110)] [1, 1] [(0, 0, 0, 0)] [0] = Inl InvalidArgumentError"
proof -
  have h: "fst (trim_zeros [(0, 0, 0, 0)]) = []" by (simp add: trim_zeros_def)
  show ?thesis
    using h C2_empty_ground_truth_raises [OF h] by simp
qed

text \<open>
  C3. With at least one anchor, one validity flag per anchor and at least one true
  ground-truth box, lines 82-116 return, and right after line 116 (before the
  subsampling) every ground-truth box j has the label 1 at the anchor
  \<open>gt_iou_argmax[j]\<close>, an anchor of maximal overlap with j, whatever the thresholds, the
  overlap or the validity flag of that anchor, and whatever the arithmetic.
\<close>

theorem C3_guaranteed_coverage:
  assumes "anchors \<noteq> []" "length valid_flags = length anchors" "fst (trim_zeros gt_boxes) \<noteq> []"
  shows "\<exists>target_matchs anchor_iou_argmax gt_iou_argmax.
     match_anchors A self anchors valid_flags (fst (trim_zeros gt_boxes)) =
       Inr (target_matchs, anchor_iou_argmax, gt_iou_argmax) \<and>
     length target_matchs = length anchors \<and>
     length gt_iou_argmax = length (fst (trim_zeros gt_boxes)) \<and>
     (\<forall>j < length (fst (trim_zeros gt_boxes)).
        gt_iou_argmax ! j < length anchors \<and>
        (\<forall>i < length anchors.
           compute_overlaps anchors (fst (trim_zeros gt_boxes)) ! i ! j \<le>
           compute_overlaps anchors (fst (trim_zeros gt_boxes)) ! (gt_iou_argmax ! j) ! j) \<and>
        target_matchs ! (gt_iou_argmax ! j) = 1)"
proof -
  let ?gt = "fst (trim_zeros gt_boxes)"
  let ?ov = "compute_overlaps anchors ?gt"
  obtain tm0 aa ga where r: "match_anchors A self anchors valid_flags ?gt = Inr (tm0, aa, ga)"
    using match_anchors_Inr [OF assms(1) assms(3) assms(2)] by blast
  note d = match_anchors_InrD [OF r]
  have len: "length ga = length ?gt" using d(6) by simp
  have col: "ga ! j < length anchors \<and>
        (\<forall>i < length anchors. ?ov ! i ! j \<le> ?ov ! (ga ! j) ! j) \<and> tm0 ! (ga ! j) = 1"
    if j: "j < length ?gt" for j
  proof -
    let ?c = "map (\<lambda>row. row ! j) ?ov"
    have gj: "ga ! j = argmax_vec ?c" using d(6) j by simp
    have cne: "?c \<noteq> []" using assms(1) by (simp add: compute_overlaps_def)
    have lt: "ga ! j < length anchors" using argmax_vec_less [OF cne] gj by simp
    have mx: "?ov ! i ! j \<le> ?ov ! (ga ! j) ! j" if "i < length anchors" for i
      using argmax_vec_max [of i ?c] that lt gj by simp
    have "ga ! j \<in> set ga" using j len by simp
    then have "tm0 ! (ga ! j) = 1" using d(7) [OF lt] by simp
    with lt mx show ?thesis by blast
  qed
  show ?thesis
    using r d(4) len col by blast
qed

theorem C3_guaranteed_coverage_witness:
  "(let A = float32_rounded;
        self = AnchorTarget_init (0, 0, 0, 0) (0.1, 0.1, 0.2, 0.2);
        anchors = [(0, 0, 10, 10)];
        valid_flags = [0];
        gt_boxes = [(0, 0, 10, 100), (0, 0, 0, 0)]
    in anchors \<noteq> [] \<and> length valid_flags = length anchors \<and> fst (trim_zeros gt_boxes) \<noteq> [] \<and>
       match_anchors A self anchors valid_flags (fst (trim_zeros gt_boxes)) = Inr ([1], [0], [0]) \<and>
       (\<exists>target_matchs anchor_iou_argmax gt_iou_argmax.
          match_anchors A self anchors valid_flags (fst (trim_zeros gt_boxes)) =
            Inr (target_matchs, anchor_iou_argmax, gt_iou_argmax) \<and>
          length target_matchs = length anchors \<and>
          length gt_iou_argmax = length (fst (trim_zeros gt_boxes)) \<and>
          (\<forall>j < length (fst (trim_zeros gt_boxes)).
             gt_iou_argmax ! j < length anchors \<and>
             (\<forall>i < length anchors.
                compute_overlaps anchors (fst (trim_zeros gt_boxes)) ! i ! j \<le>
                compute_overlaps anchors (fst (trim_zeros gt_boxes)) ! (gt_iou_argmax ! j) ! j) \<and>
             target_matchs ! (gt_iou_argmax ! j) = 1)))"
proof -
  have h1: "[((0::real), (0::real), (10::real), (10::real))] \<noteq> []" by simp
  have h2: "length [0::int] = length [((0::real), (0::real), (10::real), (10::real))]" by simp
  have h3: "fst (trim_zeros [(0, 0, 10, 100), (0, 0, 0, 0)]) \<noteq> []" by (simp add: trim_zeros_def)
  note r = C3_guaranteed_coverage [OF h1 h2 h3, of float32_rounded
      "AnchorTarget_init (0, 0, 0, 0) (0.1, 0.1, 0.2, 0.2)"]
  show ?thesis
    unfolding Let_def by (intro conjI h1 h2 h3 forced_match [OF float32_rounded_rnd] r)
qed

text \<open>
  C8. Before the subsampling, every anchor whose best overlap is at least 0.7 has the
  label 1, whether its validity flag is 1 or not. (Line 111 compares with the float32
  value of 0.7, which is below 0.7.)
\<close>

theorem C8_positive_override:
  assumes "match_anchors (float32_arith log_kernel exp_kernel) (AnchorTarget_init means stds)
             anchors valid_flags (fst (trim_zeros gt_boxes)) =
             Inr (target_matchs, anchor_iou_argmax, gt_iou_argmax)"
    and "i < length anchors"
    and "fge (reduce_max (compute_overlaps anchors (fst (trim_zeros gt_boxes)) ! i)) (Fin 0.7)"
  shows "target_matchs ! i = 1"
  using match_anchors_InrD(7) [OF assms(1) assms(2)] fge_pos_iou_thr [OF assms(3)] by simp

theorem C8_positive_override_witness:
  "(let anchors = [(0, 0, 10, 10), (0, 0, 10, 9)];
        valid_flags = [1, 0];
        gt_boxes = [(0, 0, 10, 10)];
        target_matchs = [1, 1]
    in match_anchors float32_rounded (AnchorTarget_init (0, 0, 0, 0) (0.1, 0.1, 0.2, 0.2))
         anchors valid_flags (fst (trim_zeros gt_boxes)) = Inr (target_matchs, [0, 0], [0]) \<and>
       1 < length anchors \<and>
       fge (reduce_max (compute_overlaps anchors (fst (trim_zeros gt_boxes)) ! 1)) (Fin 0.7) \<and>
       valid_flags ! 1 = 0 \<and>
       target_matchs ! 1 = 1)"
proof -
  have h1: "match_anchors float32_rounded (AnchorTarget_init (0, 0, 0, 0) (0.1, 0.1, 0.2, 0.2))
      [(0, 0, 10, 10), (0, 0, 10, 9)] [1, 0] (fst (trim_zeros [(0, 0, 10, 10)])) =
      Inr ([1, 1], [0, 0], [0])"
    unfolding trim_one by (rule pair_match [OF float32_rounded_rnd])
  have h2: "1 < length [((0::real), (0::real), (10::real), (10::real)), (0, 0, 10, 9)]" by simp
  have h3: "fge (reduce_max (compute_overlaps [(0, 0, 10, 10), (0, 0, 10, 9)]
      (fst (trim_zeros [(0, 0, 10, 10)])) ! 1)) (Fin 0.7)"
    by (simp add: compute_overlaps_def)
  have h4: "[1, 0::int] ! 1 = 0" by simp
  note r = C8_positive_override [OF h1 [unfolded float32_rounded_def] h2 h3]
  show ?thesis
    unfolding Let_def by (intro conjI h1 h2 h3 h4 r)
qed

text \<open>
  C4 as the code has it. An anchor whose validity flag is not 1 never has the label -1
  in the returned labels; when it has the label 1 there, it is the forced anchor
  \<open>gt_iou_argmax[j]\<close> of some ground-truth box j or its best overlap is at least the
  float32 value of 0.7, the threshold that line 111 compares with, which is
  11744051 / 16777216 = 0.699999988079071044921875. The second theorem evaluates an
  invalid anchor that is not forced and whose best overlap is that value, below 0.7:
  its returned label is 1.
\<close>

theorem C4_invalid_anchors:
  assumes "build_single_target (float32_arith log_kernel exp_kernel) (AnchorTarget_init means stds)
             random_shuffle anchors valid_flags gt_boxes gt_class_ids =
             Inr (target_matchs, target_deltas)"
    and "i < length anchors" and "valid_flags ! i \<noteq> 1"
  shows "target_matchs ! i \<noteq> - 1 \<and>
    (target_matchs ! i = 1 \<longrightarrow>
       (\<exists>j < length (fst (trim_zeros gt_boxes)).
          argmax_vec (map (\<lambda>row. row ! j) (compute_overlaps anchors (fst (trim_zeros gt_boxes)))) = i) \<or>
       fge (reduce_max (compute_overlaps anchors (fst (trim_zeros gt_boxes)) ! i))
         (Fin (11744051 / 16777216)))"
proof -
  let ?A = "float32_arith log_kernel exp_kernel"
  let ?gt = "fst (trim_zeros gt_boxes)"
  obtain tm0 aa ga where r: "match_anchors ?A (AnchorTarget_init means stds) anchors valid_flags ?gt =
      Inr (tm0, aa, ga)"
    and tm: "target_matchs = subsample (AnchorTarget_init means stds) random_shuffle tm0"
    and "target_deltas = pad_deltas ?A (AnchorTarget_init means stds) anchors ?gt aa target_matchs"
    by (rule build_single_target_Inr [OF assms(1)])
  note d = match_anchors_InrD [OF r]
  have i0: "i < length tm0" using d(4) assms(2) by simp
  have before: "tm0 ! i \<noteq> - 1" using d(7) [OF assms(2)] assms(3) by simp
  have after: "target_matchs ! i = tm0 ! i \<or> target_matchs ! i = 0"
    unfolding tm by (rule subsample_nth [OF i0])
  have forced: "(\<exists>j < length ?gt.
          argmax_vec (map (\<lambda>row. row ! j) (compute_overlaps anchors ?gt)) = i) \<or>
       fge (reduce_max (compute_overlaps anchors ?gt ! i)) (Fin (11744051 / 16777216))"
    if "target_matchs ! i = 1"
  proof -
    from that after have "tm0 ! i = 1" by auto
    then have "i \<in> set ga \<or>
        fge (reduce_max (compute_overlaps anchors ?gt ! i)) (Fin (11744051 / 16777216))"
      using d(7) [OF assms(2)] assms(3) by (simp add: float32_pos_iou_thr split: if_splits)
    then show ?thesis unfolding d(6) by auto
  qed
  from before after forced show ?thesis by auto
qed

theorem C4_invalid_anchors_witness:
  "(let A = float32_rounded;
        self = AnchorTarget_init (0, 0, 0, 0) (0.1, 0.1, 0.2, 0.2);
        anchors = [(0, 0, 1, 1), (0, 0, 1, 11744051 / 16777216)];
        valid_flags = [1, 0];
        gt_boxes = [(0, 0, 1, 1)];
        target_matchs = [1, 1];
        target_deltas =
          [bbox2delta A (0, 0, 1, 1) (0, 0, 1, 1) (0, 0, 0, 0) (0.1, 0.1, 0.2, 0.2),
           bbox2delta A (0, 0, 1, 11744051 / 16777216) (0, 0, 1, 1) (0, 0, 0, 0) (0.1, 0.1, 0.2, 0.2)] @
          replicate 254 zero_row
    in build_single_target A self id anchors valid_flags gt_boxes [1] =
         Inr (target_matchs, target_deltas) \<and>
       1 < length anchors \<and> valid_flags ! 1 \<noteq> 1 \<and>
       target_matchs ! 1 \<noteq> - 1 \<and> target_matchs ! 1 = 1 \<and>
       ((\<exists>j < length (fst (trim_zeros gt_boxes)).
           argmax_vec (map (\<lambda>row. row ! j) (compute_overlaps anchors (fst (trim_zeros gt_boxes)))) = 1) \<or>
        fge (reduce_max (compute_overlaps anchors (fst (trim_zeros gt_boxes)) ! 1))
          (Fin (11744051 / 16777216))) \<and>
       rnd A (pos_iou_thr self) = Fin (11744051 / 16777216) \<and>
       reduce_max (compute_overlaps anchors (fst (trim_zeros gt_boxes)) ! 1) =
         Fin (11744051 / 16777216) \<and>
       \<not> fge (reduce_max (compute_overlaps anchors (fst (trim_zeros gt_boxes)) ! 1)) (Fin 0.7) \<and>
       \<not> (\<exists>j < length (fst (trim_zeros gt_boxes)).
           argmax_vec (map (\<lambda>row. row ! j) (compute_overlaps anchors (fst (trim_zeros gt_boxes)))) = 1))"
proof -
  note h1 = edge_build [OF float32_rounded_rnd, of "(0, 0, 0, 0)" "(0.1, 0.1, 0.2, 0.2)"]
  have h2: "1 < length [((0::real), (0::real), (1::real), (1::real)), (0, 0, 1, 11744051 / 16777216)]"
    by simp
  have h3: "[1, 0::int] ! 1 \<noteq> 1" by simp
  have t: "[1, 1::int] ! 1 = 1" by simp
  note r = C4_invalid_anchors [OF h1 [unfolded float32_rounded_def] h2 h3]
  note c1 = r [THEN conjunct1]
  note c2 = r [THEN conjunct2, THEN mp, OF t]
  have thr: "rnd float32_rounded (pos_iou_thr (AnchorTarget_init (0, 0, 0, 0) (0.1, 0.1, 0.2, 0.2))) =
      Fin (11744051 / 16777216)"
    by (simp add: float32_pos_iou_thr)
  have tr: "fst (trim_zeros [((0::real), (0::real), (1::real), (1::real))]) = [(0, 0, 1, 1)]"
    by (simp add: trim_zeros_def)
  have v: "reduce_max (compute_overlaps [(0, 0, 1, 1), (0, 0, 1, 11744051 / 16777216)]
      (fst (trim_zeros [(0, 0, 1, 1)])) ! 1) = Fin (11744051 / 16777216)"
    unfolding tr edge_overlaps by simp
  have below: "\<not> fge (reduce_max (compute_overlaps [(0, 0, 1, 1), (0, 0, 1, 11744051 / 16777216)]
      (fst (trim_zeros [(0, 0, 1, 1)])) ! 1)) (Fin 0.7)"
    unfolding v by simp
  have free: "\<not> (\<exists>j < length (fst (trim_zeros [((0::real), (0::real), (1::real), (1::real))])).
      argmax_vec (map (\<lambda>row. row ! j) (compute_overlaps [(0, 0, 1, 1), (0, 0, 1, 11744051 / 16777216)]
        (fst (trim_zeros [(0, 0, 1, 1)])))) = 1)"
    unfolding tr edge_overlaps by simp
  show ?thesis
    unfolding Let_def by (intro conjI h1 h2 h3 t c1 c2 thr v below free)
qed

text \<open>
  C4 as the spec has it fails. Anchor 1 below has the validity flag 0 and overlaps the
  only ground-truth box by 0.9; the forced anchor of that box is anchor 0; the returned
  label of anchor 1 is 1, by the rule of line 111.
\<close>

theorem C4_counterexample:
  "returned_labels
     (build_single_target float32_rounded (AnchorTarget_init (0, 0, 0, 0) (0.1, 0.1, 0.2, 0.2)) id
        [(0, 0, 10, 10), (0, 0, 10, 9)] [1, 0] [(0, 0, 10, 10)] [1]) = Some [1, 1] \<and>
   [1, 0::int] ! 1 = 0 \<and>
   match_anchors float32_rounded (AnchorTarget_init (0, 0, 0, 0) (0.1, 0.1, 0.2, 0.2))
     [(0, 0, 10, 10), (0, 0, 10, 9)] [1, 0] (fst (trim_zeros [(0, 0, 10, 10)])) =
     Inr ([1, 1], [0, 0], [0]) \<and>
   (1::nat) \<notin> set [0]"
  by (simp add: pair_build [OF float32_rounded_rnd] pair_match [OF float32_rounded_rnd]
      returned_labels_def del: bbox2delta.simps)

text \<open>
  C5 as the code has it. For every input and every outcome of the shuffles, the returned
  labels hold at most 128 times the label 1, and at most 256 labels 1 and -1 together.
  Line 121 counts the forced positives with the others, so there is no exception for them.
\<close>

theorem C5_subsample_bounds:
  assumes "is_shuffle random_shuffle"
    and "build_single_target A (AnchorTarget_init means stds) random_shuffle anchors valid_flags
           gt_boxes gt_class_ids = Inr (target_matchs, target_deltas)"
  shows "count_list target_matchs 1 \<le> 128 \<and>
         count_list target_matchs 1 + count_list target_matchs (- 1) \<le> 256"
proof -
  obtain tm0 aa ga where
    "match_anchors A (AnchorTarget_init means stds) anchors valid_flags (fst (trim_zeros gt_boxes)) =
       Inr (tm0, aa, ga)"
    and tm: "target_matchs = subsample (AnchorTarget_init means stds) random_shuffle tm0"
    and "target_deltas =
       pad_deltas A (AnchorTarget_init means stds) anchors (fst (trim_zeros gt_boxes)) aa target_matchs"
    by (rule build_single_target_Inr [OF assms(2)])
  have d: "0 \<le> num_rpn_deltas (AnchorTarget_init means stds)" by simp
  note b = subsample_bounds [OF assms(1) d, of tm0, folded tm]
  from b show ?thesis by (simp add: where_equal_count)
qed

theorem C5_subsample_bounds_witness:
  "(let A = float32_rounded;
        self = AnchorTarget_init (0, 0, 0, 0) (0.1, 0.1, 0.2, 0.2);
        anchors = map (\<lambda>k. (0, 20 * real k, 10, 20 * real k + 10)) [0..<129];
        gt_boxes = map (\<lambda>k. (0, 20 * real k, 10, 20 * real k + 10)) [0..<129];
        target_matchs = 0 # replicate 128 1
    in is_shuffle id \<and>
       build_single_target A self id anchors (replicate 129 1) gt_boxes (replicate 129 1) =
         Inr (target_matchs, pad_deltas A self anchors gt_boxes [0..<129] target_matchs) \<and>
       count_list target_matchs 1 \<le> 128 \<and>
       count_list target_matchs 1 + count_list target_matchs (- 1) \<le> 256)"
proof -
  note h = diagonal_build [of float32_rounded "(0, 0, 0, 0)" "(0.1, 0.1, 0.2, 0.2)"]
  note r = C5_subsample_bounds [OF is_shuffle_id h]
  show ?thesis
    unfolding Let_def by (intro conjI is_shuffle_id h r [THEN conjunct1] r [THEN conjunct2])
qed

text \<open>
  C5 as the spec has it fails. Below, each of 129 ground-truth boxes forces its own
  anchor, so the forced positives alone are more than 128; the returned labels hold 128
  times the label 1. And no arithmetic, no input and no outcome of the shuffles leave
  more than 128 labels 1 in the returned labels.
\<close>

theorem C5_counterexample:
  "match_anchors float32_rounded (AnchorTarget_init (0, 0, 0, 0) (0.1, 0.1, 0.2, 0.2))
     (map (\<lambda>k. (0, 20 * real k, 10, 20 * real k + 10)) [0..<129]) (replicate 129 1)
     (fst (trim_zeros (map (\<lambda>k. (0, 20 * real k, 10, 20 * real k + 10)) [0..<129]))) =
     Inr (replicate 129 1, [0..<129], [0..<129]) \<and>
   returned_labels
     (build_single_target float32_rounded (AnchorTarget_init (0, 0, 0, 0) (0.1, 0.1, 0.2, 0.2)) id
        (map (\<lambda>k. (0, 20 * real k, 10, 20 * real k + 10)) [0..<129]) (replicate 129 1)
        (map (\<lambda>k. (0, 20 * real k, 10, 20 * real k + 10)) [0..<129]) (replicate 129 1)) =
     Some (0 # replicate 128 1) \<and>
   count_list (0 # replicate 128 (1::int)) 1 = 128 \<and>
   \<not> (\<exists>A means stds random_shuffle anchors valid_flags gt_boxes gt_class_ids target_matchs target_deltas.
        is_shuffle random_shuffle \<and>
        build_single_target A (AnchorTarget_init means stds) random_shuffle anchors valid_flags
          gt_boxes gt_class_ids = Inr (target_matchs, target_deltas) \<and>
        128 < count_list target_matchs 1)"
proof -
  have a: "match_anchors float32_rounded (AnchorTarget_init (0, 0, 0, 0) (0.1, 0.1, 0.2, 0.2))
     (map (\<lambda>k. (0, 20 * real k, 10, 20 * real k + 10)) [0..<129]) (replicate 129 1)
     (fst (trim_zeros (map (\<lambda>k. (0, 20 * real k, 10, 20 * real k + 10)) [0..<129]))) =
     Inr (replicate 129 1, [0..<129], [0..<129])"
    unfolding diagonal_trim by (rule diagonal_match) simp
  have b: "returned_labels
     (build_single_target float32_rounded (AnchorTarget_init (0, 0, 0, 0) (0.1, 0.1, 0.2, 0.2)) id
        (map (\<lambda>k. (0, 20 * real k, 10, 20 * real k + 10)) [0..<129]) (replicate 129 1)
        (map (\<lambda>k. (0, 20 * real k, 10, 20 * real k + 10)) [0..<129]) (replicate 129 1)) =
     Some (0 # replicate 128 1)"
    unfolding diagonal_build by (simp add: returned_labels_def)
  have "count_list (replicate n (1::int)) 1 = n" for n
    by (induction n) simp_all
  then have c: "count_list (0 # replicate 128 (1::int)) 1 = 128"
    by simp
  have d: "\<not> (\<exists>A means stds random_shuffle anchors valid_flags gt_boxes gt_class_ids target_matchs target_deltas.
        is_shuffle random_shuffle \<and>
        build_single_target A (AnchorTarget_init means stds) random_shuffle anchors valid_flags
          gt_boxes gt_class_ids = Inr (target_matchs, target_deltas) \<and>
        128 < count_list target_matchs 1)"
  proof
    assume "\<exists>A means stds random_shuffle anchors valid_flags gt_boxes gt_class_ids target_matchs target_deltas.
        is_shuffle random_shuffle \<and>
        build_single_target A (AnchorTarget_init means stds) random_shuffle anchors valid_flags
          gt_boxes gt_class_ids = Inr (target_matchs, target_deltas) \<and>
        128 < count_list target_matchs 1"
    then obtain A means stds random_shuffle anchors valid_flags gt_boxes gt_class_ids
        target_matchs target_deltas
      where s: "is_shuffle random_shuffle"
        and b: "build_single_target A (AnchorTarget_init means stds) random_shuffle anchors valid_flags
            gt_boxes gt_class_ids = Inr (target_matchs, target_deltas)"
        and c: "128 < count_list target_matchs 1"
      by blast
    from build_bounds(1) [OF s b] c show False
      by (simp add: where_equal_count)
  qed
  show ?thesis
    by (intro conjI a b c d)
qed

text \<open>
  C6. The returned delta array has exactly 256 rows. With ids the indices of the label 1
  in the returned labels, ascending, row k for k below the number of ids is bbox2delta
  of anchor ids[k] and of the trimmed ground-truth box that anchor is paired with: the
  box of index best, where best is in range, no ground-truth box overlaps the anchor
  more than the box best does, and every box before best overlaps it less (the first
  maximum of the anchor's row of overlaps, as \<open>tf.argmax\<close> returns it). The rows from the
  number of ids to 255 are zero rows.
\<close>

theorem C6_delta_layout:
  assumes "is_shuffle random_shuffle"
    and "build_single_target A (AnchorTarget_init means stds) random_shuffle anchors valid_flags
           gt_boxes gt_class_ids = Inr (target_matchs, target_deltas)"
  shows "length target_deltas = 256 \<and>
    (let ids = where_equal 1 target_matchs;
         gt = fst (trim_zeros gt_boxes);
         overlaps = compute_overlaps anchors gt
     in sorted_wrt (<) ids \<and>
        set ids = {i. i < length anchors \<and> target_matchs ! i = 1} \<and>
        length ids \<le> 256 \<and>
        (\<forall>k < length ids. \<exists>best < length gt.
           (\<forall>j < length gt. overlaps ! (ids ! k) ! j \<le> overlaps ! (ids ! k) ! best) \<and>
           (\<forall>j < best. overlaps ! (ids ! k) ! j < overlaps ! (ids ! k) ! best) \<and>
           target_deltas ! k = bbox2delta A (anchors ! (ids ! k)) (gt ! best) means stds) \<and>
        (\<forall>k. length ids \<le> k \<and> k < 256 \<longrightarrow> target_deltas ! k = zero_row))"
proof -
  let ?self = "AnchorTarget_init means stds"
  let ?gt = "fst (trim_zeros gt_boxes)"
  let ?ov = "compute_overlaps anchors ?gt"
  let ?ids = "where_equal 1 target_matchs"
  let ?f = "\<lambda>i. bbox2delta A (anchors ! i) (?gt ! (map argmax_vec ?ov ! i)) means stds"
  obtain tm0 aa ga where r: "match_anchors A ?self anchors valid_flags ?gt = Inr (tm0, aa, ga)"
    and tm: "target_matchs = subsample ?self random_shuffle tm0"
    and td: "target_deltas = pad_deltas A ?self anchors ?gt aa target_matchs"
    by (rule build_single_target_Inr [OF assms(2)])
  note d = match_anchors_InrD [OF r]
  have len: "length target_matchs = length anchors" using tm d(4) by simp
  have p: "length ?ids \<le> 128" by (rule build_bounds(1) [OF assms])
  have td': "target_deltas = map ?f ?ids @ replicate (256 - length ?ids) zero_row"
  proof -
    have "nat (256 - int (length ?ids)) = 256 - length ?ids" by simp
    then show ?thesis unfolding td pad_deltas_eq d(5) by simp
  qed
  have l: "length target_deltas = 256" using p by (simp add: td')
  have s: "sorted_wrt (<) ?ids" by (rule where_equal_sorted)
  have e: "set ?ids = {i. i < length anchors \<and> target_matchs ! i = 1}"
    by (simp add: where_equal_set len)
  have row: "\<exists>best < length ?gt.
      (\<forall>j < length ?gt. ?ov ! (?ids ! k) ! j \<le> ?ov ! (?ids ! k) ! best) \<and>
      (\<forall>j < best. ?ov ! (?ids ! k) ! j < ?ov ! (?ids ! k) ! best) \<and>
      target_deltas ! k = bbox2delta A (anchors ! (?ids ! k)) (?gt ! best) means stds"
    if k: "k < length ?ids" for k
  proof -
    let ?row = "?ov ! (?ids ! k)"
    have "?ids ! k \<in> set ?ids" using k by simp
    then have i: "?ids ! k < length anchors" unfolding e by simp
    have rl: "length ?row = length ?gt" using i by simp
    have "?row \<noteq> []" using i d(2) by (simp add: compute_overlaps_def)
    then have "argmax_vec ?row < length ?row"
      by (rule argmax_vec_less)
    then have a: "argmax_vec ?row < length ?gt" using rl by simp
    have mx: "\<forall>j < length ?gt. ?row ! j \<le> ?row ! argmax_vec ?row"
      using argmax_vec_max [of _ ?row] rl by simp
    have fst: "\<forall>j < argmax_vec ?row. ?row ! j < ?row ! argmax_vec ?row"
      using argmax_vec_first [of _ ?row] by simp
    have "target_deltas ! k = ?f (?ids ! k)" using k by (simp add: td' nth_append)
    then have "target_deltas ! k =
        bbox2delta A (anchors ! (?ids ! k)) (?gt ! argmax_vec ?row) means stds"
      using i by simp
    with a mx fst show ?thesis by blast
  qed
  have pad: "target_deltas ! k = zero_row" if "length ?ids \<le> k" "k < 256" for k
    using that by (simp add: td' nth_append)
  show ?thesis
    unfolding Let_def using l s e p row pad by simp
qed

theorem C6_delta_layout_witness:
  "(let A = float32_rounded;
        means = (0, 0, 0, 0);
        stds = (0.1, 0.1, 0.2, 0.2);
        anchors = [(0, 0, 10, 9), (100, 100, 110, 110)];
        gt_boxes = [(100, 100, 110, 110), (0, 0, 10, 10)];
        target_matchs = [1, 1];
        target_deltas =
          [bbox2delta A (0, 0, 10, 9) (0, 0, 10, 10) means stds,
           bbox2delta A (100, 100, 110, 110) (100, 100, 110, 110) means stds] @
          replicate 254 zero_row
    in is_shuffle id \<and>
       build_single_target A (AnchorTarget_init means stds) id anchors [1, 1] gt_boxes [1, 1] =
         Inr (target_matchs, target_deltas) \<and>
       length target_deltas = 256 \<and>
       where_equal 1 target_matchs = [0, 1] \<and>
       compute_overlaps anchors (fst (trim_zeros gt_boxes)) = [0, 9 / 10] # [1, 0] # [] \<and>
       (let ids = where_equal 1 target_matchs;
            gt = fst (trim_zeros gt_boxes);
            overlaps = compute_overlaps anchors gt
        in sorted_wrt (<) ids \<and>
           set ids = {i. i < length anchors \<and> target_matchs ! i = 1} \<and>
           length ids \<le> 256 \<and>
           (\<forall>k < length ids. \<exists>best < length gt.
              (\<forall>j < length gt. overlaps ! (ids ! k) ! j \<le> overlaps ! (ids ! k) ! best) \<and>
              (\<forall>j < best. overlaps ! (ids ! k) ! j < overlaps ! (ids ! k) ! best) \<and>
              target_deltas ! k = bbox2delta A (anchors ! (ids ! k)) (gt ! best) means stds) \<and>
           (\<forall>k. length ids \<le> k \<and> k < 256 \<longrightarrow> target_deltas ! k = zero_row)))"
proof -
  note h = swapped_build [OF float32_rounded_rnd, of "(0, 0, 0, 0)" "(0.1, 0.1, 0.2, 0.2)"]
  note r = C6_delta_layout [OF is_shuffle_id h]
  have ov: "compute_overlaps [(0, 0, 10, 9), (100, 100, 110, 110)]
      (fst (trim_zeros [(100, 100, 110, 110), (0, 0, 10, 10)])) = [0, 9 / 10] # [1, 0] # []"
    unfolding swapped_trim by (rule swapped_overlaps)
  show ?thesis
    unfolding Let_def
    by (intro conjI is_shuffle_id h r [THEN conjunct1] pair_where_equal(1) ov
        r [unfolded Let_def, THEN conjunct2])
qed

text \<open>
  C10. There are an input and a shuffle for which more than 128 anchors are positive
  before the subsampling, the forced anchor of a ground-truth box j has the label 1
  before the subsampling and the label 0 in the returned labels, and no anchor with the
  returned label 1 has j as its best ground-truth box or overlaps j at all.
\<close>

theorem C10_coverage_lost_by_subsampling:
  "\<exists>random_shuffle anchors valid_flags gt_boxes gt_class_ids
      target_matchs0 anchor_iou_argmax gt_iou_argmax target_matchs target_deltas j.
     is_shuffle random_shuffle \<and>
     match_anchors (float32_arith log_kernel exp_kernel) (AnchorTarget_init means stds)
       anchors valid_flags (fst (trim_zeros gt_boxes)) =
       Inr (target_matchs0, anchor_iou_argmax, gt_iou_argmax) \<and>
     build_single_target (float32_arith log_kernel exp_kernel) (AnchorTarget_init means stds)
       random_shuffle anchors valid_flags gt_boxes gt_class_ids =
       Inr (target_matchs, target_deltas) \<and>
     j < length gt_iou_argmax \<and>
     256 div 2 < count_list target_matchs0 1 \<and>
     target_matchs0 ! (gt_iou_argmax ! j) = 1 \<and>
     target_matchs ! (gt_iou_argmax ! j) = 0 \<and>
     \<not> (\<exists>i < length target_matchs. target_matchs ! i = 1 \<and>
           (anchor_iou_argmax ! i = j \<or>
            compute_overlaps anchors (fst (trim_zeros gt_boxes)) ! i ! j \<noteq> 0))"
proof -
  let ?A = "float32_arith log_kernel exp_kernel"
  let ?anchors = "(100, 100, 110, 120) # replicate 128 ((0::real), (0::real), (10::real), (10::real))"
  let ?gt = "[((0::real), (0::real), (10::real), (10::real)), (100, 100, 110, 110)]"
  have rA: "rnd ?A = float32" by simp
  have none: "\<not> (\<exists>i < length (0 # replicate 128 (1::int)). (0 # replicate 128 (1::int)) ! i = 1 \<and>
           ((1 # replicate 128 0) ! i = Suc 0 \<or>
            compute_overlaps ?anchors (fst (trim_zeros ?gt)) ! i ! Suc 0 \<noteq> 0))"
    unfolding trim_two crowded_overlaps by (auto simp: nth_Cons split: nat.splits)
  have many: "256 div 2 < count_list (replicate 129 (1::int)) 1"
    by (simp add: where_equal_count [symmetric] where_equal_replicate)
  show ?thesis
    apply (rule exI [of _ id])
    apply (rule exI [of _ ?anchors])
    apply (rule exI [of _ "replicate 129 1"])
    apply (rule exI [of _ ?gt])
    apply (rule exI [of _ "[1, 1]"])
    apply (rule exI [of _ "replicate 129 1"])
    apply (rule exI [of _ "1 # replicate 128 0"])
    apply (rule exI [of _ "[1, 0]"])
    apply (rule exI [of _ "0 # replicate 128 1"])
    apply (rule exI [of _ "pad_deltas ?A (AnchorTarget_init means stds) ?anchors ?gt
             (1 # replicate 128 0) (0 # replicate 128 1)"])
    apply (rule exI [of _ "Suc 0"])
    unfolding crowded_build [OF rA]
    using none many by (simp add: is_shuffle_id crowded_match [OF rA])
qed

end
